theory Spec2Isabelle
  imports Main
begin

section \<open>C strings, decimal rendering\<close>

text \<open>
  A C string is modelled by the list of its bytes before the terminating NUL.
  \<open>NL\<close> is the newline byte, \<open>NUL\<close> the zero byte, \<open>SP\<close> the blank that
  \<open>parse_line\<close> passes to \<open>strtok_r\<close> as its only delimiter.
\<close>

abbreviation NL :: char where "NL \<equiv> CHR 0x0A"
abbreviation NUL :: char where "NUL \<equiv> CHR 0x00"
abbreviation SP :: char where "SP \<equiv> CHR '' ''"

text \<open>The conversion \<open>%d\<close> of \<open>printf\<close> and \<open>sprintf\<close>.\<close>

fun dec :: "nat \<Rightarrow> string" where
  "dec n = (if n < 10 then [''0123456789'' ! n] else dec (n div 10) @ [''0123456789'' ! (n mod 10)])"

declare dec.simps [simp del]

definition show_int :: "int \<Rightarrow> string" where
  "show_int i = (if i < 0 then CHR ''-'' # dec (nat (- i)) else dec (nat i))"

section \<open>shell\_info.h, shell\_info.c\<close>

text \<open>
  \<open>struct shell_info\<close>. The two \<open>char[256]\<close> members are lists of 256 bytes;
  \<open>cstr\<close> reads such a buffer as a C string.
\<close>

record shell_info =
  background :: int
  exit_status :: int
  output_redirect :: int
  input_redirect :: int
  output_filename :: "char list"
  input_filename :: "char list"

definition cstr :: "char list \<Rightarrow> string" where
  "cstr buf = takeWhile (\<lambda>c. c \<noteq> NUL) buf"

definition init_shell_info :: "shell_info \<Rightarrow> shell_info" where
  "init_shell_info info =
     info\<lparr>background := 0, input_redirect := 0, output_redirect := 0,
          input_filename := replicate 256 NUL, output_filename := replicate 256 NUL\<rparr>"

section \<open>main.c: reading and parsing a line\<close>

text \<open>
  What the C standard leaves undefined is a value of the model: \<open>NullDeref\<close> is
  \<open>strlen\<close> or \<open>strcpy\<close> applied to the null pointer that \<open>strtok_r\<close> returns when
  no token is left, \<open>BufferOverflow\<close> a \<open>strcpy\<close> of a token of 256 bytes or more
  into a file name buffer, \<open>ArgsOverflow\<close> a store behind the 512 slots of \<open>args\<close>.
\<close>

datatype fault = NullDeref | BufferOverflow | ArgsOverflow

text \<open>
  \<open>get_input\<close>, from the bytes \<open>fgets\<close> has put into \<open>buf\<close> (a line with its
  newline, unless it was cut at 2047 bytes). \<open>strtok(buf, "\n")\<close> skips leading
  newlines and writes NUL over the newline that ends the first token; when there is
  no token it leaves \<open>buf\<close> as it is. The prompt is printed by the caller's model
  (\<open>shell_cycle\<close>).
\<close>

definition get_input :: "string \<Rightarrow> string" where
  "get_input buf =
     (if dropWhile (\<lambda>c. c = NL) buf = [] then buf
      else takeWhile (\<lambda>c. c = NL) buf @ takeWhile (\<lambda>c. c \<noteq> NL) (dropWhile (\<lambda>c. c = NL) buf))"

text \<open>
  \<open>strtok_r(_, " ", &saveptr)\<close> on the text that is left: the next token, if any, and
  the text behind it.
\<close>

definition strtok_r :: "string \<Rightarrow> string option \<times> string" where
  "strtok_r s =
     (let r = dropWhile (\<lambda>c. c = SP) s
      in if r = [] then (None, [])
         else (Some (takeWhile (\<lambda>c. c \<noteq> SP) r), drop 1 (dropWhile (\<lambda>c. c \<noteq> SP) r)))"

lemma strtok_r_shorter: "strtok_r s = (Some t, s') \<Longrightarrow> length s' < length s"
proof -
  assume a: "strtok_r s = (Some t, s')"
  let ?r = "dropWhile (\<lambda>c. c = SP) s"
  from a have ne: "?r \<noteq> []" and s': "s' = drop 1 (dropWhile (\<lambda>c. c \<noteq> SP) ?r)"
    by (auto simp: strtok_r_def Let_def split: if_splits)
  from ne have "hd ?r \<noteq> SP" using hd_dropWhile by blast
  with ne have "takeWhile (\<lambda>c. c \<noteq> SP) ?r \<noteq> []" by (cases ?r) auto
  then have "length (takeWhile (\<lambda>c. c \<noteq> SP) ?r) > 0" by simp
  moreover have "length (takeWhile (\<lambda>c. c \<noteq> SP) ?r) + length (dropWhile (\<lambda>c. c \<noteq> SP) ?r) = length ?r"
    by (metis length_append takeWhile_dropWhile_id)
  ultimately have "length (dropWhile (\<lambda>c. c \<noteq> SP) ?r) < length ?r" by arith
  moreover have "length ?r \<le> length s" by (rule length_dropWhile_le)
  ultimately show ?thesis using s' by simp
qed

text \<open>\<open>strcpy\<close> into a file name buffer of \<open>struct shell_info\<close>.\<close>

definition strcpy_buf :: "char list \<Rightarrow> string \<Rightarrow> fault + char list" where
  "strcpy_buf buf s =
     (if length s < length buf then Inr (s @ NUL # drop (length s + 1) buf)
      else Inl BufferOverflow)"

text \<open>
  The \<open>while\<close> loop of \<open>parse_line\<close>. \<open>s\<close> is the text at \<open>saveptr\<close>, \<open>args\<close> the
  slots \<open>args[0..i)\<close> filled so far (the counter \<open>i\<close> is its length; the slots behind
  are null, as \<open>small_shell\<close> and \<open>free_memory\<close> leave them), \<open>pid\<close> the value of
  \<open>getpid()\<close>. An argument is the string copied into its slot; that
  \<open>malloc(strlen(token))\<close> and \<open>malloc(6)\<close> leave no room for the terminating NUL
  (or for a longer process identifier) is a matter of the heap's layout and is not
  modelled.
\<close>

function parse_loop :: "int \<Rightarrow> string \<Rightarrow> string list \<Rightarrow> shell_info \<Rightarrow> fault + (string list \<times> shell_info)" where
  "parse_loop pid s args info =
     (case strtok_r s of
        (None, _) \<Rightarrow> Inr (args, info)
      | (Some token, s') \<Rightarrow>
          if token = ''<'' then
            (case strtok_r s' of
               (None, _) \<Rightarrow> Inl NullDeref
             | (Some f, s'') \<Rightarrow>
                 (case strcpy_buf (input_filename info) f of
                    Inl e \<Rightarrow> Inl e
                  | Inr b \<Rightarrow> parse_loop pid s'' args (info\<lparr>input_redirect := 1, input_filename := b\<rparr>)))
          else if token = ''>'' then
            (case strtok_r s' of
               (None, _) \<Rightarrow> Inl NullDeref
             | (Some f, s'') \<Rightarrow>
                 (case strcpy_buf (output_filename info) f of
                    Inl e \<Rightarrow> Inl e
                  | Inr b \<Rightarrow> parse_loop pid s'' args (info\<lparr>output_redirect := 1, output_filename := b\<rparr>)))
          else if token = ''&'' then parse_loop pid s' args (info\<lparr>background := 1\<rparr>)
          else if token = ''$$'' then
            (if length args < 512 then parse_loop pid s' (args @ [show_int pid]) info
             else Inl ArgsOverflow)
          else
            (if length args < 512 then parse_loop pid s' (args @ [token]) info
             else Inl ArgsOverflow))"
  by pat_completeness auto
termination
proof (relation "measure (\<lambda>(pid, s, args, info). length s)")
  show "wf (measure (\<lambda>(pid, s, args, info). length s))" by simp
qed (auto dest!: strtok_r_shorter sym [of "(Some _, _)" "strtok_r _"])

declare parse_loop.simps [simp del]

definition parse_line :: "int \<Rightarrow> string \<Rightarrow> shell_info \<Rightarrow> fault + (string list \<times> shell_info)" where
  "parse_line pid line info =
     (case strtok_r line of
        (None, _) \<Rightarrow> Inl NullDeref
      | (Some token, s) \<Rightarrow> parse_loop pid s [token] info)"

section \<open>main.c: the process and its environment\<close>

text \<open>
  The state of one process running the shell's code: its \<open>struct shell_info\<close>, the
  global \<open>stop_background\<close>, the dispositions of SIGINT, SIGTSTP and SIGCHLD (the
  last one is inherited and never changed by the code), what the descriptors 0 and
  1 are bound to, the kernel's table of its children, and the trace of what it has
  written on descriptor 1 and of its calls of \<open>waitpid\<close>, \<open>open\<close> and \<open>dup2\<close>.
  \<open>fork\<close> copies all of it but the table of children, so the child branch of
  \<open>other_cmd\<close> runs on the same record. \<open>perror\<close> writes on descriptor 2, which
  is not recorded.
\<close>

datatype sighandler = SIG_DFL | SIG_IGN | Handle_SIG

datatype stream = Terminal | File string

text \<open>
  A child is running, with the wait status it will terminate with (\<open>None\<close>: it never
  terminates), or it has terminated and waits to be reaped.
\<close>

datatype cstate = Running "int option" | Zombie int

datatype woptions = WNOHANG | NoOptions

datatype action =
    Write string
  | Waitpid int woptions
  | Open_read string
  | Open_write string
  | Dup2 int

record shell =
  info :: shell_info
  stop_background :: int
  sigint :: sighandler
  sigtstp :: sighandler
  sigchld :: sighandler
  fd0 :: stream
  fd1 :: stream
  children :: "(int \<times> cstate) list"
  trace :: "action list"

text \<open>
  The three ways \<open>fork()\<close> returns: -1; 0, in the new process, whose identifier
  (its \<open>getpid()\<close>) is given; the new process's identifier, in the caller.
\<close>

datatype fork_result = Fork_failed | Fork_child int | Fork_parent int

text \<open>
  What the operating system answers during one command cycle of one process:
  \<open>getpid\<close> is \<open>getpid()\<close> in the shell; \<open>fork\<close> is how \<open>fork()\<close> returns in
  this process; \<open>child_fate\<close> the wait status the new child will end with (\<open>None\<close>:
  it never ends); \<open>ended_by n\<close> the children that have ended by the time the
  process, having made \<open>n\<close> traced calls so far, calls \<open>waitpid\<close>;
  \<open>tstp_after_fork\<close> the number of SIGTSTP signals delivered to
  this process between the return of \<open>fork\<close> and its next statement; \<open>open_rd\<close>,
  \<open>open_wr\<close>, \<open>dup2_ok\<close>, \<open>exec_ok\<close> and \<open>chdir_ok\<close> whether
  \<open>open(_, O_RDONLY)\<close>, \<open>open(_, O_WRONLY | O_CREAT | O_TRUNC, 0777)\<close>,
  \<open>dup2(_, n)\<close>, \<open>execvp\<close> and \<open>chdir\<close> succeed; \<open>home\<close> is \<open>getenv("HOME")\<close>.
\<close>

record env =
  getpid :: int
  fork :: fork_result
  child_fate :: "int option"
  ended_by :: "nat \<Rightarrow> int list"
  tstp_after_fork :: nat
  open_rd :: "string \<Rightarrow> bool"
  open_wr :: "string \<Rightarrow> bool"
  dup2_ok :: "int \<Rightarrow> bool"
  exec_ok :: bool
  home :: "string option"
  chdir_ok :: "string option \<Rightarrow> bool"

text \<open>
  How a piece of the shell's code ends: it returns, the process calls \<open>exit\<close>, the
  process image is replaced by \<open>execvp\<close>, the process is suspended for ever in a
  blocking \<open>waitpid\<close>, or its behaviour is undefined.
\<close>

datatype 'a result =
    Return 'a
  | Exit int shell
  | Exec "string list" shell
  | Blocked shell
  | Fault fault shell

fun and_then :: "'a result \<Rightarrow> ('a \<Rightarrow> 'b result) \<Rightarrow> 'b result" where
  "and_then (Return x) f = f x"
| "and_then (Exit n st) f = Exit n st"
| "and_then (Exec a st) f = Exec a st"
| "and_then (Blocked st) f = Blocked st"
| "and_then (Fault x st) f = Fault x st"

definition print :: "string \<Rightarrow> shell \<Rightarrow> shell" where
  "print s st = st\<lparr>trace := trace st @ [Write s]\<rparr>"

subsection \<open>Termination status\<close>

text \<open>
  The macros of \<open><sys/wait.h>\<close>, as the C library defines them:
  \<open>WTERMSIG(s) = s & 0x7f\<close>, \<open>WIFEXITED(s) = (WTERMSIG(s) == 0)\<close>,
  \<open>WEXITSTATUS(s) = (s & 0xff00) >> 8\<close>; \<open>W_EXITCODE\<close> is the status the kernel
  reports for \<open>exit(n)\<close>.
\<close>

definition WTERMSIG :: "int \<Rightarrow> int" where
  "WTERMSIG s = s mod 128"

definition WIFEXITED :: "int \<Rightarrow> bool" where
  "WIFEXITED s = (WTERMSIG s = 0)"

definition WEXITSTATUS :: "int \<Rightarrow> int" where
  "WEXITSTATUS s = (s div 256) mod 256"

definition W_EXITCODE :: "int \<Rightarrow> int" where
  "W_EXITCODE n = (n mod 256) * 256"

definition status_text :: "int \<Rightarrow> string" where
  "status_text s =
     (if WIFEXITED s then ''exit value '' @ show_int (WEXITSTATUS s) @ [SP, NL]
      else ''terminated by signal '' @ show_int (WTERMSIG s) @ [SP, NL])"

definition my_status :: "int \<Rightarrow> shell \<Rightarrow> shell" where
  "my_status s st = print (status_text s) st"

subsection \<open>The other built-in commands\<close>

definition my_exit :: "shell \<Rightarrow> int \<times> shell" where
  "my_exit st = (0, print (''exiting shell '' @ [NL]) st)"

definition my_cd :: "env \<Rightarrow> string list \<Rightarrow> shell \<Rightarrow> shell" where
  "my_cd e args st =
     (if length args < 2 then
        (if \<not> chdir_ok e (home e) then print ''chdir() failed'' st else st)
      else
        (if \<not> chdir_ok e (Some (args ! 1)) then print ''chdir() failed'' st else st))"

subsection \<open>Redirection\<close>

definition called :: "action \<Rightarrow> shell \<Rightarrow> shell" where
  "called a st = st\<lparr>trace := trace st @ [a]\<rparr>"

definition output_redirection :: "env \<Rightarrow> string \<Rightarrow> shell \<Rightarrow> shell result" where
  "output_redirection e filename st =
     (if \<not> open_wr e filename then Exit 1 (called (Open_write filename) st)
      else if \<not> dup2_ok e 1 then Exit 1 (called (Dup2 1) (called (Open_write filename) st))
      else Return ((called (Dup2 1) (called (Open_write filename) st))\<lparr>fd1 := File filename\<rparr>))"

definition input_redirection :: "env \<Rightarrow> string \<Rightarrow> shell \<Rightarrow> shell result" where
  "input_redirection e filename st =
     (if \<not> open_rd e filename then Exit 1 (called (Open_read filename) st)
      else if \<not> dup2_ok e 0 then Exit 0 (called (Dup2 0) (called (Open_read filename) st))
      else Return ((called (Dup2 0) (called (Open_read filename) st))\<lparr>fd0 := File filename\<rparr>))"

subsection \<open>Signals\<close>

definition handle_SIG :: "shell \<Rightarrow> shell" where
  "handle_SIG st =
     (if stop_background st = 0 then
        (print (take 50 (''Entering foreground-only mode (& is now ignored) '' @ [NL])) st)
          \<lparr>stop_background := 1\<rparr>
      else
        (print (take 30 (''Exiting foreground-only mode '' @ [NL])) st)
          \<lparr>stop_background := 0\<rparr>)"

definition custom_SIG :: "shell \<Rightarrow> shell" where
  "custom_SIG st = st\<lparr>sigint := SIG_IGN\<rparr>"

definition custom_SIGTSTP :: "shell \<Rightarrow> shell" where
  "custom_SIGTSTP st = st\<lparr>sigtstp := Handle_SIG\<rparr>"

definition custom_IG :: "shell \<Rightarrow> shell" where
  "custom_IG st = st\<lparr>sigtstp := SIG_IGN\<rparr>"

text \<open>
  The delivery of one SIGTSTP to a process, and of \<open>n\<close> of them in a row. With the
  default disposition the process would be stopped; the shell's code never runs
  with it once \<open>small_shell\<close> has installed its handlers.
\<close>

definition deliver_SIGTSTP :: "shell \<Rightarrow> shell" where
  "deliver_SIGTSTP st = (if sigtstp st = Handle_SIG then handle_SIG st else st)"

definition after_fork :: "env \<Rightarrow> shell \<Rightarrow> shell" where
  "after_fork e st = (deliver_SIGTSTP ^^ tstp_after_fork e) st"

subsection \<open>waitpid\<close>

datatype wait_result = Suspends | Returns int "int option" "(int \<times> cstate) list"

fun is_zombie :: "int \<times> cstate \<Rightarrow> bool" where
  "is_zombie (p, Zombie w) = True"
| "is_zombie (p, Running f) = False"

fun ends :: "int \<times> cstate \<Rightarrow> bool" where
  "ends (p, Zombie w) = True"
| "ends (p, Running f) = (f \<noteq> None)"

fun final_status :: "cstate \<Rightarrow> int option" where
  "final_status (Zombie w) = Some w"
| "final_status (Running f) = f"

fun dying :: "cstate \<Rightarrow> bool" where
  "dying (Running (Some w)) = True"
| "dying (Running None) = False"
| "dying (Zombie w) = False"

fun terminated :: "cstate \<Rightarrow> cstate" where
  "terminated (Running (Some w)) = Zombie w"
| "terminated (Running None) = Running None"
| "terminated (Zombie w) = Zombie w"

text \<open>
  The table brought up to date with the children \<open>dead\<close> that have ended: such a
  child waits to be reaped or, when the process ignores SIGCHLD (\<open>ign\<close>), is gone
  at once.
\<close>

definition settle :: "bool \<Rightarrow> int list \<Rightarrow> (int \<times> cstate) list \<Rightarrow> (int \<times> cstate) list" where
  "settle ign dead tbl =
     (if ign then filter (\<lambda>c. \<not> (fst c \<in> set dead \<and> dying (snd c))) tbl
      else map (\<lambda>c. if fst c \<in> set dead then (fst c, terminated (snd c)) else c) tbl)"

text \<open>
  \<open>waitpid(pid, &status, options)\<close> on the table of the caller's children: the value
  returned, the status stored (if any) and the table afterwards. \<open>pid = -1\<close> asks for
  any child. A terminated child is reaped at once; otherwise the call fails with -1
  when there is no such child, returns 0 under WNOHANG, and else waits for the
  first such child that terminates. When the process ignores SIGCHLD (\<open>ign\<close>), a
  child that ends leaves nothing to reap, and the blocking call, as Linux does it,
  fails with -1 once the children it waits for are gone.
\<close>

definition waitpid :: "bool \<Rightarrow> int \<Rightarrow> woptions \<Rightarrow> (int \<times> cstate) list \<Rightarrow> wait_result" where
  "waitpid ign pid options tbl =
     (let mine = filter (\<lambda>c. pid = -1 \<or> fst c = pid) tbl
      in case find is_zombie mine of
           Some c \<Rightarrow> Returns (fst c) (final_status (snd c)) (remove1 c tbl)
         | None \<Rightarrow>
             if mine = [] then Returns (-1) None tbl
             else if options = WNOHANG then Returns 0 None tbl
             else if ign then
               (if list_all ends mine
                then Returns (-1) None (filter (\<lambda>c. \<not> (pid = -1 \<or> fst c = pid)) tbl)
                else Suspends)
             else (case find ends mine of
                     Some c \<Rightarrow> Returns (fst c) (final_status (snd c)) (remove1 c tbl)
                   | None \<Rightarrow> Suspends))"

text \<open>
  The call \<open>waitpid(pid, &info->exit_status, options)\<close> of the shell, on the table
  as it is at the time of the call.
\<close>

definition sys_waitpid :: "env \<Rightarrow> int \<Rightarrow> woptions \<Rightarrow> shell \<Rightarrow> (int \<times> shell) result" where
  "sys_waitpid e pid options st =
     (let ign = (sigchld st = SIG_IGN);
          tbl = settle ign (ended_by e (length (trace st))) (children st);
          st1 = st\<lparr>trace := trace st @ [Waitpid pid options], children := tbl\<rparr>
      in case waitpid ign pid options tbl of
           Suspends \<Rightarrow> Blocked st1
         | Returns r w tbl' \<Rightarrow>
             Return (r, st1\<lparr>children := tbl',
                            info := (case w of None \<Rightarrow> info st
                                     | Some s \<Rightarrow> (info st)\<lparr>exit_status := s\<rparr>)\<rparr>))"

section \<open>main.c: executing a command\<close>

text \<open>
  \<open>case 0\<close> of \<open>other_cmd\<close>: the child, whose \<open>getpid()\<close> is \<open>pid\<close>. It starts as
  a copy of the shell at the \<open>fork\<close>, with no children of its own; until
  \<open>custom_IG\<close> has run it still has the shell's handler for SIGTSTP.
\<close>

definition other_cmd_child :: "env \<Rightarrow> int \<Rightarrow> string list \<Rightarrow> shell \<Rightarrow> shell result" where
  "other_cmd_child e pid args st0 =
     (let st = custom_IG (after_fork e (st0\<lparr>children := []\<rparr>))
      in and_then
           (if background (info st) \<noteq> 0 \<and> stop_background st = 0 then
              (let st1 = print (''background pid is '' @ show_int pid @ [SP, NL]) st
               in and_then
                    (if output_redirect (info st1) = 0 then output_redirection e ''/dev/null'' st1
                     else Return st1)
                    (\<lambda>st2. if input_redirect (info st2) = 0 then input_redirection e ''/dev/null'' st2
                           else Return st2))
            else Return (st\<lparr>sigint := SIG_DFL\<rparr>))
           (\<lambda>st3. and_then
              (if input_redirect (info st3) \<noteq> 0
               then input_redirection e (cstr (input_filename (info st3))) st3
               else Return st3)
              (\<lambda>st4. and_then
                 (if output_redirect (info st4) \<noteq> 0
                  then output_redirection e (cstr (output_filename (info st4))) st4
                  else Return st4)
                 (\<lambda>st5. if exec_ok e then Exec args st5 else Exit 2 st5))))"

text \<open>
  \<open>default\<close> of \<open>other_cmd\<close>: the parent, with the child's identifier in
  \<open>spawnPid\<close>. The kernel has entered the child into the table of its children.
\<close>

definition other_cmd_parent :: "env \<Rightarrow> int \<Rightarrow> shell \<Rightarrow> shell result" where
  "other_cmd_parent e spawnPid st0 =
     (let st = after_fork e (st0\<lparr>children := children st0 @ [(spawnPid, Running (child_fate e))]\<rparr>)
      in if background (info st) \<noteq> 0 \<and> stop_background st = 0 then
           and_then (sys_waitpid e spawnPid WNOHANG st) (\<lambda>r. Return (snd r))
         else
           and_then (sys_waitpid e spawnPid NoOptions st)
             (\<lambda>r. if exit_status (info (snd r)) \<noteq> 0
                  then Return (my_status (exit_status (info (snd r))) (snd r))
                  else Return (snd r)))"

definition other_cmd :: "env \<Rightarrow> string list \<Rightarrow> shell \<Rightarrow> shell result" where
  "other_cmd e args st =
     (case fork e of
        Fork_failed \<Rightarrow> Exit 1 st
      | Fork_child pid \<Rightarrow> other_cmd_child e pid args st
      | Fork_parent spawnPid \<Rightarrow> other_cmd_parent e spawnPid st)"

text \<open>The loop at the end of \<open>execute_cmd\<close>.\<close>

lemma length_settle: "length (settle ign dead tbl) \<le> length tbl"
  by (simp add: settle_def)

lemma waitpid_reaps:
  assumes "waitpid ign pid WNOHANG tbl = Returns r w tbl'" and "0 < r"
  shows "length tbl' < length tbl"
proof -
  let ?mine = "filter (\<lambda>c. pid = -1 \<or> fst c = pid) tbl"
  from assms obtain c where c: "find is_zombie ?mine = Some c" and t: "tbl' = remove1 c tbl"
    by (auto simp: waitpid_def Let_def split: option.splits if_splits)
  from c have "c \<in> set ?mine" by (metis find_Some_iff nth_mem)
  then have "c \<in> set tbl" by simp
  then have "length (remove1 c tbl) = length tbl - 1" by (simp add: length_remove1)
  moreover from \<open>c \<in> set tbl\<close> have "0 < length tbl" by (cases tbl) auto
  ultimately show ?thesis using t by simp
qed

lemma sys_waitpid_reaps:
  assumes "sys_waitpid e pid WNOHANG st = Return (r, st')" and "0 < r"
  shows "length (children st') < length (children st)"
proof -
  let ?ign = "sigchld st = SIG_IGN"
  let ?tbl = "settle ?ign (ended_by e (length (trace st))) (children st)"
  have "\<exists>w tbl'. waitpid ?ign pid WNOHANG ?tbl = Returns r w tbl' \<and> children st' = tbl'"
    using assms(1) unfolding sys_waitpid_def Let_def
    by (cases "waitpid ?ign pid WNOHANG ?tbl") auto
  then obtain w tbl' where w: "waitpid ?ign pid WNOHANG ?tbl = Returns r w tbl'"
    and c: "children st' = tbl'" by blast
  from waitpid_reaps [OF w assms(2)] have "length tbl' < length ?tbl" .
  also have "length ?tbl \<le> length (children st)" by (rule length_settle)
  finally show ?thesis using c by simp
qed

lemma and_then_cong [fundef_cong]:
  "m = m' \<Longrightarrow> (\<And>x. m' = Return x \<Longrightarrow> f x = f' x) \<Longrightarrow> and_then m f = and_then m' f'"
  by (cases m') auto

function reap_sweep :: "env \<Rightarrow> shell \<Rightarrow> shell result" where
  "reap_sweep e st =
     and_then (sys_waitpid e (-1) WNOHANG st)
       (\<lambda>r. if 0 < fst r
            then reap_sweep e
                   (my_status (exit_status (info (snd r)))
                      (print (''background pid '' @ show_int (fst r) @ '' is done: '') (snd r)))
            else Return (snd r))"
  by pat_completeness auto
termination
proof (relation "measure (\<lambda>(e, st). length (children st))")
  show "wf (measure (\<lambda>(e, st). length (children st)))" by simp
next
  fix e st x
  assume "sys_waitpid e (- 1) WNOHANG st = Return x" and "0 < fst x"
  then have "length (children (snd x)) < length (children st)"
    using sys_waitpid_reaps [of e "- 1" st "fst x" "snd x"] by simp
  then show "((e, my_status (exit_status (info (snd x)))
                (print (''background pid '' @ show_int (fst x) @ '' is done: '') (snd x))), e, st)
             \<in> measure (\<lambda>(e, st). length (children st))"
    by (simp add: my_status_def print_def)
qed

declare reap_sweep.simps [simp del]

definition execute_cmd :: "env \<Rightarrow> string list \<Rightarrow> shell \<Rightarrow> (int \<times> shell) result" where
  "execute_cmd e args st =
     (case args of
        [] \<Rightarrow> Fault NullDeref st
      | a0 # _ \<Rightarrow>
          and_then
            (if a0 = ''exit'' then Return (my_exit st)
             else if a0 = ''cd'' then Return (1, my_cd e args st)
             else if a0 = ''status'' then Return (1, my_status (exit_status (info st)) st)
             else if a0 = [NL] \<or> take 1 a0 = ''#'' then Return (1, st)
             else and_then (other_cmd e args st) (\<lambda>st1. Return (1, st1)))
            (\<lambda>r. and_then (reap_sweep e (snd r)) (\<lambda>st2. Return (fst r, st2))))"

section \<open>main.c: the shell's loop\<close>

text \<open>
  One pass through the body of the \<open>do\<close> loop of \<open>small_shell\<close>, on the bytes
  \<open>buf\<close> that \<open>fgets\<close> delivers: \<open>init_shell_info\<close>, \<open>get_input\<close> with its
  prompt, \<open>parse_line\<close> on the emptied \<open>args\<close>, \<open>execute_cmd\<close>. The result is the
  value of \<open>status\<close> and the state; \<open>free_memory\<close> empties \<open>args\<close> again.
\<close>

definition shell_cycle :: "env \<Rightarrow> string \<Rightarrow> shell \<Rightarrow> (int \<times> shell) result" where
  "shell_cycle e buf st =
     (let st1 = print '': '' (st\<lparr>info := init_shell_info (info st)\<rparr>)
      in case parse_line (getpid e) (get_input buf) (info st1) of
           Inl x \<Rightarrow> Fault x st1
         | Inr (args, info') \<Rightarrow> execute_cmd e args (st1\<lparr>info := info'\<rparr>))"

text \<open>
  The loop, on the lines of a session with the environment of each cycle. It ends
  when \<open>status\<close> is 0; the session may also end before (\<open>Return\<close> with the state
  reached so far).
\<close>

fun shell_loop :: "(env \<times> string) list \<Rightarrow> shell \<Rightarrow> shell result" where
  "shell_loop [] st = Return st"
| "shell_loop (c # cs) st =
     and_then (shell_cycle (fst c) (snd c) st)
       (\<lambda>r. if fst r \<noteq> 0 then shell_loop cs (snd r) else Return (snd r))"

text \<open>
  \<open>small_shell\<close>. Its \<open>struct shell_info info\<close> is a local variable without
  initialiser: \<open>garbage\<close> is whatever the stack holds there. The process starts with
  \<open>stop_background = 0\<close> (a global without initialiser), no children and the
  dispositions (of SIGINT, SIGTSTP, SIGCHLD) and descriptors (0, 1) \<open>inherited\<close>.
\<close>

definition small_shell :: "shell_info \<Rightarrow> (sighandler \<times> sighandler \<times> sighandler) \<times> stream \<times> stream \<Rightarrow> (env \<times> string) list \<Rightarrow> shell result" where
  "small_shell garbage inherited session =
     shell_loop session
       (print (''smallsh '' @ [NL])
          (custom_SIGTSTP (custom_SIG
             \<lparr>info = garbage, stop_background = 0,
              sigint = fst (fst inherited), sigtstp = fst (snd (fst inherited)),
              sigchld = snd (snd (fst inherited)),
              fd0 = fst (snd inherited), fd1 = snd (snd inherited),
              children = [], trace = []\<rparr>)))"

section \<open>Vocabulary of the properties\<close>

text \<open>
  The tokens of a line: what the successive calls of \<open>strtok_r\<close> deliver until it
  returns the null pointer.
\<close>

function tokens :: "string \<Rightarrow> string list" where
  "tokens s = (case strtok_r s of (None, _) \<Rightarrow> [] | (Some t, s') \<Rightarrow> t # tokens s')"
  by pat_completeness auto
termination
proof (relation "measure length")
  show "wf (measure length)" by simp
qed (auto dest!: strtok_r_shorter sym [of "(Some _, _)" "strtok_r _"])

declare tokens.simps [simp del]

text \<open>
  The tokens behind the program name that are left once every \<open><\<close> and \<open>>\<close> is
  taken away together with the token that follows it; \<open>expand\<close> is the rule for
  \<open>$$\<close>.
\<close>

fun operands :: "string list \<Rightarrow> string list" where
  "operands [] = []"
| "operands (t # ts) = (if t = ''<'' \<or> t = ''>'' then operands (drop 1 ts) else t # operands ts)"

definition expand :: "int \<Rightarrow> string \<Rightarrow> string" where
  "expand pid t = (if t = ''$$'' then show_int pid else t)"

text \<open>The state in which a piece of code ends, however it ends.\<close>

fun state_of :: "shell result \<Rightarrow> shell" where
  "state_of (Return st) = st"
| "state_of (Exit n st) = st"
| "state_of (Exec a st) = st"
| "state_of (Blocked st) = st"
| "state_of (Fault x st) = st"

text \<open>
  The redirections of a child (descriptor and path), in the order in which the
  child branch of \<open>other_cmd\<close> makes them: for a child in the background first
  the null device on each stream the request leaves alone (output, then input),
  then the files the request names (input, then output). \<open>calls_of\<close> are the calls of
  \<open>open\<close> and \<open>dup2\<close> they take, \<open>redirects_ok\<close> says that all of them succeed,
  \<open>redirect_all\<close> performs them with the code's two functions and \<open>redirected\<close>
  is the state they lead to when they succeed.
\<close>

definition redirections :: "bool \<Rightarrow> shell_info \<Rightarrow> (int \<times> string) list" where
  "redirections bg si =
     (if bg \<and> output_redirect si = 0 then [(1, ''/dev/null'')] else []) @
     (if bg \<and> input_redirect si = 0 then [(0, ''/dev/null'')] else []) @
     (if input_redirect si \<noteq> 0 then [(0, cstr (input_filename si))] else []) @
     (if output_redirect si \<noteq> 0 then [(1, cstr (output_filename si))] else [])"

fun calls_of :: "(int \<times> string) list \<Rightarrow> action list" where
  "calls_of [] = []"
| "calls_of (r # rs) =
     (if fst r = 0 then [Open_read (snd r), Dup2 0] else [Open_write (snd r), Dup2 1]) @ calls_of rs"

fun redirects_ok :: "env \<Rightarrow> (int \<times> string) list \<Rightarrow> bool" where
  "redirects_ok e [] = True"
| "redirects_ok e (r # rs) =
     ((if fst r = 0 then open_rd e (snd r) \<and> dup2_ok e 0 else open_wr e (snd r) \<and> dup2_ok e 1) \<and>
      redirects_ok e rs)"

fun redirect_all :: "env \<Rightarrow> (int \<times> string) list \<Rightarrow> shell \<Rightarrow> shell result" where
  "redirect_all e [] st = Return st"
| "redirect_all e (r # rs) st =
     and_then (if fst r = 0 then input_redirection e (snd r) st else output_redirection e (snd r) st)
       (redirect_all e rs)"

fun redirected :: "(int \<times> string) list \<Rightarrow> shell \<Rightarrow> shell" where
  "redirected [] st = st"
| "redirected (r # rs) st =
     redirected rs
       (if fst r = 0 then (called (Dup2 0) (called (Open_read (snd r)) st))\<lparr>fd0 := File (snd r)\<rparr>
        else (called (Dup2 1) (called (Open_write (snd r)) st))\<lparr>fd1 := File (snd r)\<rparr>)"

text \<open>
  The configuration of a child, from the state \<open>s\<close> of the shell at the
  \<open>fork\<close> and the value \<open>bg\<close> of the test of the flag: when it has tested the flag (\<open>child_start\<close>: SIGTSTP ignored, no
  children, and either the announcement or SIGINT at its default), and when it
  reaches \<open>execvp\<close> (\<open>child_at_exec\<close>: besides, each of the two streams on the
  file the request names, else on the null device in the background, else as
  inherited).
\<close>

definition child_start :: "bool \<Rightarrow> int \<Rightarrow> shell \<Rightarrow> shell" where
  "child_start bg p s =
     (if bg
      then s\<lparr>children := [], sigtstp := SIG_IGN,
             trace := trace s @ [Write (''background pid is '' @ show_int p @ [SP, NL])]\<rparr>
      else s\<lparr>children := [], sigtstp := SIG_IGN, sigint := SIG_DFL\<rparr>)"

definition child_at_exec :: "bool \<Rightarrow> int \<Rightarrow> shell \<Rightarrow> shell" where
  "child_at_exec bg p s =
     s\<lparr>children := [],
       sigint := (if bg then sigint s else SIG_DFL),
       sigtstp := SIG_IGN,
       fd0 := (if input_redirect (info s) \<noteq> 0 then File (cstr (input_filename (info s)))
               else if bg then File ''/dev/null'' else fd0 s),
       fd1 := (if output_redirect (info s) \<noteq> 0 then File (cstr (output_filename (info s)))
               else if bg then File ''/dev/null'' else fd1 s),
       trace := trace s @
                (if bg then [Write (''background pid is '' @ show_int p @ [SP, NL])] else []) @
                calls_of (redirections bg (info s))\<rparr>"

text \<open>The argument of \<open>exit\<close>, when that is how a piece of code ends.\<close>

fun exit_code :: "'a result \<Rightarrow> int option" where
  "exit_code (Exit n st) = Some n"
| "exit_code (Return x) = None"
| "exit_code (Exec a st) = None"
| "exit_code (Blocked st) = None"
| "exit_code (Fault x st) = None"

text \<open>
  A concrete setting for the examples: a \<open>struct shell_info\<close> of zeros, the shell
  (process 4242) as \<open>small_shell\<close> has set it up on a terminal with SIGCHLD at its
  default, and an operating system in which every call succeeds, no signal arrives
  and no child ends during the cycle.
\<close>

definition zero_info :: shell_info where
  "zero_info =
     \<lparr>background = 0, exit_status = 0, output_redirect = 0, input_redirect = 0,
      output_filename = replicate 256 NUL, input_filename = replicate 256 NUL\<rparr>"

definition idle_shell :: shell where
  "idle_shell =
     \<lparr>info = zero_info, stop_background = 0, sigint = SIG_IGN, sigtstp = Handle_SIG,
      sigchld = SIG_DFL, fd0 = Terminal, fd1 = Terminal, children = [], trace = []\<rparr>"

definition calm :: env where
  "calm =
     \<lparr>getpid = 4242, fork = Fork_failed, child_fate = None, ended_by = (\<lambda>n. []),
      tstp_after_fork = 0,
      open_rd = (\<lambda>f. True), open_wr = (\<lambda>f. True), dup2_ok = (\<lambda>n. True), exec_ok = True,
      home = Some ''/root'', chdir_ok = (\<lambda>d. True)\<rparr>"

text \<open>The shell as \<open>parse_line\<close> leaves it on the line \<open>sleep 5 &\<close>.\<close>

definition background_request :: shell where
  "background_request = idle_shell\<lparr>info := zero_info\<lparr>background := 1\<rparr>\<rparr>"

text \<open>The shell as \<open>parse_line\<close> leaves it on the line \<open>sort > out.txt &\<close>.\<close>

definition sort_request :: shell where
  "sort_request =
     idle_shell\<lparr>info := zero_info\<lparr>background := 1, output_redirect := 1,
                                   output_filename := ''out.txt'' @ replicate 249 NUL\<rparr>\<rparr>"

text \<open>
  The shell with three children: 100 has exited with status 0, 101 is running, 102
  has been killed by signal 2.
\<close>

definition three_children :: shell where
  "three_children = idle_shell\<lparr>children := [(100, Zombie 0), (101, Running None), (102, Zombie 2)]\<rparr>"

section \<open>Properties of the parser\<close>

lemma tokens_None: "strtok_r s = (None, r) \<Longrightarrow> tokens s = []"
  by (simp add: tokens.simps)

lemma tokens_Some: "strtok_r s = (Some t, r) \<Longrightarrow> tokens s = t # tokens r"
  by (simp add: tokens.simps)

lemma dec_digits: "set (dec n) \<subseteq> set ''0123456789''"
proof (induction n rule: dec.induct)
  case (1 n)
  have d: "\<And>k. k < 10 \<Longrightarrow> ''0123456789'' ! k \<in> set ''0123456789''"
    by (rule nth_mem) simp
  show ?case
  proof (cases "n < 10")
    case True
    with d [of n] show ?thesis by (subst dec.simps) simp
  next
    case False
    with "1.IH" d [of "n mod 10"] show ?thesis by (subst dec.simps) simp
  qed
qed

lemma show_int_not_ampersand: "show_int i \<noteq> ''&''"
proof
  assume a: "show_int i = ''&''"
  show False
  proof (cases "i < 0")
    case True
    with a show False by (simp add: show_int_def)
  next
    case False
    with a have "dec (nat i) = ''&''" by (simp add: show_int_def)
    then have "CHR ''&'' \<in> set (dec (nat i))" by simp
    with dec_digits [of "nat i"] show False by auto
  qed
qed

lemma parse_loop_spec:
  "parse_loop pid s args si = Inr (args', si') \<Longrightarrow>
     args' = args @ map (expand pid) (filter (\<lambda>t. t \<noteq> ''&'') (operands (tokens s))) \<and>
     background si' = (if ''&'' \<in> set (operands (tokens s)) then 1 else background si)"
proof (induction pid s args si rule: parse_loop.induct)
  case (1 pid s args si)
  obtain tk s' where st: "strtok_r s = (tk, s')" by (cases "strtok_r s")
  show ?case
  proof (cases tk)
    case None
    with st "1.prems" show ?thesis
      by (simp add: parse_loop.simps tokens_None)
  next
    case (Some token)
    note tk = this
    have ts: "tokens s = token # tokens s'" using st tk by (simp add: tokens_Some)
    consider (inp) "token = ''<''" | (outp) "token = ''>''" | (bg) "token = ''&''"
      | (pid) "token = ''$$''"
      | (other) "token \<noteq> ''<''" "token \<noteq> ''>''" "token \<noteq> ''&''" "token \<noteq> ''$$''"
      by blast
    then show ?thesis
    proof cases
      case inp
      obtain tk2 s'' where st2: "strtok_r s' = (tk2, s'')" by (cases "strtok_r s'")
      show ?thesis
      proof (cases tk2)
        case None
        with st tk inp st2 "1.prems" show ?thesis by (simp add: parse_loop.simps)
      next
        case (Some f)
        have ts2: "tokens s' = f # tokens s''" using st2 Some by (simp add: tokens_Some)
        from "1.prems" st tk inp st2 Some obtain b where
          b: "strcpy_buf (input_filename si) f = Inr b" and
          rec: "parse_loop pid s'' args (si\<lparr>input_redirect := 1, input_filename := b\<rparr>) = Inr (args', si')"
          by (auto simp: parse_loop.simps [of pid s] split: sum.splits)
        from "1.IH"(1) [OF st [symmetric] tk inp st2 [symmetric] Some b rec]
        show ?thesis by (simp add: ts ts2 inp)
      qed
    next
      case outp
      obtain tk2 s'' where st2: "strtok_r s' = (tk2, s'')" by (cases "strtok_r s'")
      show ?thesis
      proof (cases tk2)
        case None
        with st tk outp st2 "1.prems" show ?thesis by (simp add: parse_loop.simps)
      next
        case (Some f)
        have ts2: "tokens s' = f # tokens s''" using st2 Some by (simp add: tokens_Some)
        from "1.prems" st tk outp st2 Some obtain b where
          b: "strcpy_buf (output_filename si) f = Inr b" and
          rec: "parse_loop pid s'' args (si\<lparr>output_redirect := 1, output_filename := b\<rparr>) = Inr (args', si')"
          by (auto simp: parse_loop.simps [of pid s] split: sum.splits)
        have ne: "token \<noteq> ''<''" using outp by simp
        from "1.IH"(2) [OF st [symmetric] tk ne outp st2 [symmetric] Some b rec]
        show ?thesis by (simp add: ts ts2 outp)
      qed
    next
      case bg
      from "1.prems" st tk bg have
        rec: "parse_loop pid s' args (si\<lparr>background := 1\<rparr>) = Inr (args', si')"
        by (simp add: parse_loop.simps [of pid s])
      from "1.IH"(3) [OF st [symmetric] tk _ _ bg rec] bg
      show ?thesis by (simp add: ts)
    next
      case pid
      from "1.prems" st tk pid have len: "length args < 512" and
        rec: "parse_loop pid s' (args @ [show_int pid]) si = Inr (args', si')"
        by (auto simp: parse_loop.simps [of pid s] split: if_splits)
      from "1.IH"(4) [OF st [symmetric] tk _ _ _ pid len rec] pid
      show ?thesis by (simp add: ts expand_def)
    next
      case other
      from "1.prems" st tk other have len: "length args < 512" and
        rec: "parse_loop pid s' (args @ [token]) si = Inr (args', si')"
        by (auto simp: parse_loop.simps [of pid s] split: if_splits)
      from "1.IH"(5) [OF st [symmetric] tk other len rec] other
      show ?thesis by (simp add: ts expand_def)
    qed
  qed
qed

lemmas parse_eval =
  parse_line_def parse_loop.simps tokens.simps strtok_r_def strcpy_buf_def
  show_int_def dec.simps expand_def

text \<open>
  C1, as the code has it. The parser sets \<open>background\<close> for a token \<open>&\<close> in any
  position behind the program name, last or not, unless the token is taken as the
  file name after \<open><\<close> or \<open>>\<close>; such a token never becomes an argument. Whenever
  \<open>parse_line\<close> succeeds, the argument vector is the first token followed by the
  other operand tokens without the \<open>&\<close> tokens, \<open>$$\<close> replaced by the process
  identifier, and \<open>background\<close> is 1 exactly when it was 1 before or an operand token
  is \<open>&\<close>.
\<close>

theorem parse_line_background:
  assumes "parse_line pid line si = Inr (args, si')"
  shows "\<exists>t0 rest. tokens line = t0 # rest \<and>
           args = t0 # map (expand pid) (filter (\<lambda>t. t \<noteq> ''&'') (operands rest)) \<and>
           background si' = (if ''&'' \<in> set (operands rest) then 1 else background si) \<and>
           ''&'' \<notin> set (tl args)"
proof -
  from assms obtain t0 s where st: "strtok_r line = (Some t0, s)"
    and pl: "parse_loop pid s [t0] si = Inr (args, si')"
    by (auto simp: parse_line_def split: prod.splits option.splits)
  have tk: "tokens line = t0 # tokens s" using st by (rule tokens_Some)
  from parse_loop_spec [OF pl] have
    a: "args = t0 # map (expand pid) (filter (\<lambda>t. t \<noteq> ''&'') (operands (tokens s)))" and
    b: "background si' = (if ''&'' \<in> set (operands (tokens s)) then 1 else background si)"
    by simp_all
  have "''&'' \<notin> set (tl args)"
    using show_int_not_ampersand [of pid] by (auto simp: a expand_def)
  with tk a b show ?thesis by blast
qed

theorem parse_line_background_witness:
  "parse_line 4242 ''sort & < in.txt -r $$'' zero_info =
     Inr ([''sort'', ''-r'', ''4242''],
          zero_info\<lparr>input_redirect := 1, input_filename := ''in.txt'' @ NUL # replicate 249 NUL, background := 1\<rparr>) \<and>
   (\<exists>t0 rest. tokens ''sort & < in.txt -r $$'' = t0 # rest \<and>
      [''sort'', ''-r'', ''4242''] = t0 # map (expand 4242) (filter (\<lambda>t. t \<noteq> ''&'') (operands rest)) \<and>
      (1::int) = (if ''&'' \<in> set (operands rest) then 1 else background zero_info) \<and>
      ''&'' \<notin> set (tl [''sort'', ''-r'', ''4242'']))"
proof -
  have p: "parse_line 4242 ''sort & < in.txt -r $$'' zero_info =
     Inr ([''sort'', ''-r'', ''4242''],
          zero_info\<lparr>input_redirect := 1, input_filename := ''in.txt'' @ NUL # replicate 249 NUL, background := 1\<rparr>)"
    by (simp add: parse_eval zero_info_def)
  from parse_line_background [OF p] p show ?thesis by simp
qed

text \<open>
  C1 as the specification words it fails: in \<open>ls & -la\<close> the token \<open>&\<close> is not the last
  one, yet \<open>background\<close> is set and \<open>&\<close> is not an argument.
\<close>

theorem parse_line_ampersand_not_last:
  "tokens ''ls & -la'' = [''ls'', ''&'', ''-la''] \<and>
   parse_line 4242 ''ls & -la'' zero_info = Inr ([''ls'', ''-la''], zero_info\<lparr>background := 1\<rparr>)"
  by (simp add: parse_eval zero_info_def)

lemma strtok_r_blanks: "strtok_r (replicate n SP) = (None, [])"
  by (simp add: strtok_r_def)

lemma get_input_blanks: "get_input (replicate (Suc n) SP @ [NL]) = replicate (Suc n) SP"
proof -
  have "takeWhile (\<lambda>c. c \<noteq> NL) (replicate (Suc n) SP @ [NL]) = replicate (Suc n) SP"
    by (subst takeWhile_append2) auto
  then show ?thesis by (simp add: get_input_def)
qed

text \<open>
  C5. A line of blanks only has no token: \<open>strtok_r\<close> returns the null pointer and
  \<open>parse_line\<close> hands it to \<open>strlen\<close>. The cycle ends there, in undefined behaviour,
  and \<open>execute_cmd\<close> with its sweep is never reached; the line is not a silent
  no-op. (A line that is a newline only has the token \<open>"\n"\<close> and is skipped.)
\<close>

theorem blank_line_faults:
  "shell_cycle e (replicate (Suc n) SP @ [NL]) st =
     Fault NullDeref (print '': '' (st\<lparr>info := init_shell_info (info st)\<rparr>))"
  by (simp only: shell_cycle_def get_input_blanks parse_line_def strtok_r_blanks Let_def)
     simp

section \<open>Properties of the spawn\<close>

subsection \<open>The child\<close>

lemma and_then_Return: "(and_then m f = Return y) = (\<exists>x. m = Return x \<and> f x = Return y)"
  by (cases m) auto

lemma and_then_Exec:
  "(and_then m f = Exec a s) = (m = Exec a s \<or> (\<exists>x. m = Return x \<and> f x = Exec a s))"
  by (cases m) auto

lemma input_redirection_Return:
  "(input_redirection e f st = Return st') =
     (open_rd e f \<and> dup2_ok e 0 \<and>
      st' = st\<lparr>fd0 := File f, trace := trace st @ [Open_read f, Dup2 0]\<rparr>)"
  by (auto simp: input_redirection_def called_def)

lemma output_redirection_Return:
  "(output_redirection e f st = Return st') =
     (open_wr e f \<and> dup2_ok e 1 \<and>
      st' = st\<lparr>fd1 := File f, trace := trace st @ [Open_write f, Dup2 1]\<rparr>)"
  by (auto simp: output_redirection_def called_def)

lemma redirection_not_Exec:
  "input_redirection e f st \<noteq> Exec a s" "output_redirection e f st \<noteq> Exec a s"
  by (simp_all add: input_redirection_def output_redirection_def)

lemma deliver_frame:
  "info (deliver_SIGTSTP st) = info st \<and> sigint (deliver_SIGTSTP st) = sigint st \<and>
   sigtstp (deliver_SIGTSTP st) = sigtstp st \<and> sigchld (deliver_SIGTSTP st) = sigchld st \<and>
   fd0 (deliver_SIGTSTP st) = fd0 st \<and>
   fd1 (deliver_SIGTSTP st) = fd1 st \<and> children (deliver_SIGTSTP st) = children st"
  by (simp add: deliver_SIGTSTP_def handle_SIG_def print_def)

lemma deliver_children_update:
  "deliver_SIGTSTP (st\<lparr>children := c\<rparr>) = (deliver_SIGTSTP st)\<lparr>children := c\<rparr>"
  by (simp add: deliver_SIGTSTP_def handle_SIG_def print_def)

lemma delivers_frame:
  "info ((deliver_SIGTSTP ^^ n) st) = info st \<and> sigint ((deliver_SIGTSTP ^^ n) st) = sigint st \<and>
   sigtstp ((deliver_SIGTSTP ^^ n) st) = sigtstp st \<and>
   sigchld ((deliver_SIGTSTP ^^ n) st) = sigchld st \<and> fd0 ((deliver_SIGTSTP ^^ n) st) = fd0 st \<and>
   fd1 ((deliver_SIGTSTP ^^ n) st) = fd1 st \<and> children ((deliver_SIGTSTP ^^ n) st) = children st"
  by (induction n) (simp_all add: deliver_frame)

lemma delivers_children_update:
  "(deliver_SIGTSTP ^^ n) (st\<lparr>children := c\<rparr>) = ((deliver_SIGTSTP ^^ n) st)\<lparr>children := c\<rparr>"
  by (induction n) (simp_all add: deliver_children_update)

lemma after_fork_frame:
  "info (after_fork e st) = info st \<and> sigint (after_fork e st) = sigint st \<and>
   sigtstp (after_fork e st) = sigtstp st \<and> sigchld (after_fork e st) = sigchld st \<and>
   fd0 (after_fork e st) = fd0 st \<and>
   fd1 (after_fork e st) = fd1 st \<and> children (after_fork e st) = children st"
  unfolding after_fork_def by (rule delivers_frame)

lemma after_fork_children_update:
  "after_fork e (st\<lparr>children := c\<rparr>) = (after_fork e st)\<lparr>children := c\<rparr>"
  unfolding after_fork_def by (rule delivers_children_update)

lemma after_fork_quiet: "tstp_after_fork e = 0 \<Longrightarrow> after_fork e st = st"
  by (simp add: after_fork_def)


lemma and_then_assoc: "and_then (and_then m f) g = and_then m (\<lambda>x. and_then (f x) g)"
  by (cases m) auto

lemma and_then_Return_left: "and_then (Return x) f = f x"
  by simp

lemma input_redirection_then:
  "and_then (input_redirection e f s) k =
     (if \<not> open_rd e f then Exit 1 (called (Open_read f) s)
      else if \<not> dup2_ok e 0 then Exit 0 (called (Dup2 0) (called (Open_read f) s))
      else k ((called (Dup2 0) (called (Open_read f) s))\<lparr>fd0 := File f\<rparr>))"
  by (simp add: input_redirection_def)

lemma output_redirection_then:
  "and_then (output_redirection e f s) k =
     (if \<not> open_wr e f then Exit 1 (called (Open_write f) s)
      else if \<not> dup2_ok e 1 then Exit 1 (called (Dup2 1) (called (Open_write f) s))
      else k ((called (Dup2 1) (called (Open_write f) s))\<lparr>fd1 := File f\<rparr>))"
  by (simp add: output_redirection_def)

lemmas child_simps =
  other_cmd_child_def Let_def custom_IG_def print_def called_def after_fork_frame
  after_fork_children_update redirections_def child_start_def
  input_redirection_then output_redirection_then

lemma child_unfold:
  "other_cmd_child e p args st =
     and_then
       (redirect_all e
          (redirections (background (info st) \<noteq> 0 \<and> stop_background (after_fork e st) = 0) (info st))
          (child_start (background (info st) \<noteq> 0 \<and> stop_background (after_fork e st) = 0) p (after_fork e st)))
       (\<lambda>s. if exec_ok e then Exec args s else Exit 2 s)"
proof (cases "background (info st) = 0")
  case b0: True
  show ?thesis
  proof (cases "input_redirect (info st) = 0")
    case i0: True
    show ?thesis
    proof (cases "output_redirect (info st) = 0")
      case o0: True
      show ?thesis using b0 i0 o0 by (simp add: child_simps)
    next
      case o1: False
      show ?thesis using b0 i0 o1 by (simp add: child_simps)
    qed
  next
    case i1: False
    show ?thesis
    proof (cases "output_redirect (info st) = 0")
      case o0: True
      show ?thesis using b0 i1 o0 by (simp add: child_simps)
    next
      case o1: False
      show ?thesis using b0 i1 o1 by (simp add: child_simps)
    qed
  qed
next
  case b1: False
  show ?thesis
  proof (cases "stop_background (after_fork e st) = 0")
    case s0: True
    show ?thesis
    proof (cases "input_redirect (info st) = 0")
      case i0: True
      show ?thesis
      proof (cases "output_redirect (info st) = 0")
        case o0: True
        show ?thesis using b1 s0 i0 o0 by (simp add: child_simps)
      next
        case o1: False
        show ?thesis using b1 s0 i0 o1 by (simp add: child_simps)
      qed
    next
      case i1: False
      show ?thesis
      proof (cases "output_redirect (info st) = 0")
        case o0: True
        show ?thesis using b1 s0 i1 o0 by (simp add: child_simps)
      next
        case o1: False
        show ?thesis using b1 s0 i1 o1 by (simp add: child_simps)
      qed
    qed
  next
    case s1: False
    show ?thesis
    proof (cases "input_redirect (info st) = 0")
      case i0: True
      show ?thesis
      proof (cases "output_redirect (info st) = 0")
        case o0: True
        show ?thesis using b1 s1 i0 o0 by (simp add: child_simps)
      next
        case o1: False
        show ?thesis using b1 s1 i0 o1 by (simp add: child_simps)
      qed
    next
      case i1: False
      show ?thesis
      proof (cases "output_redirect (info st) = 0")
        case o0: True
        show ?thesis using b1 s1 i1 o0 by (simp add: child_simps)
      next
        case o1: False
        show ?thesis using b1 s1 i1 o1 by (simp add: child_simps)
      qed
    qed
  qed
qed


lemma redirect_all_Return:
  "(redirect_all e rs st = Return st') = (redirects_ok e rs \<and> st' = redirected rs st)"
proof (induction rs arbitrary: st)
  case Nil
  show ?case by auto
next
  case (Cons r rs)
  show ?case
    by (cases "fst r = 0")
       (auto simp: input_redirection_then output_redirection_then Cons.IH)
qed

lemma redirect_all_not_Exec: "redirect_all e rs st \<noteq> Exec a s"
proof (induction rs arbitrary: st)
  case Nil
  show ?case by simp
next
  case (Cons r rs)
  show ?case
    by (cases "fst r = 0")
       (simp_all add: input_redirection_then output_redirection_then Cons.IH)
qed

lemma redirect_all_frame:
  "sigint (state_of (and_then (redirect_all e rs st) (\<lambda>s. if exec_ok e then Exec args s else Exit 2 s))) = sigint st \<and>
   sigtstp (state_of (and_then (redirect_all e rs st) (\<lambda>s. if exec_ok e then Exec args s else Exit 2 s))) = sigtstp st \<and>
   (\<exists>n. trace (state_of (and_then (redirect_all e rs st) (\<lambda>s. if exec_ok e then Exec args s else Exit 2 s)))
           = trace st @ take n (calls_of rs))"
proof (induction rs arbitrary: st)
  case Nil
  show ?case by simp
next
  case (Cons r rs)
  let ?k = "\<lambda>s. if exec_ok e then Exec args s else Exit 2 s"
  let ?i = "(called (Dup2 0) (called (Open_read (snd r)) st))\<lparr>fd0 := File (snd r)\<rparr>"
  let ?o = "(called (Dup2 1) (called (Open_write (snd r)) st))\<lparr>fd1 := File (snd r)\<rparr>"
  have t0: "\<And>x y zs. [x] = take 1 (x # y # zs)" "\<And>x y zs. [x, y] = take 2 (x # y # zs)"
    "\<And>x y zs n. x # y # take n zs = take (Suc (Suc n)) (x # y # zs)"
    by simp_all
  from Cons.IH [of ?i] obtain n where i:
    "sigint (state_of (and_then (redirect_all e rs ?i) ?k)) = sigint st"
    "sigtstp (state_of (and_then (redirect_all e rs ?i) ?k)) = sigtstp st"
    "trace (state_of (and_then (redirect_all e rs ?i) ?k)) =
       trace st @ take (Suc (Suc n)) (calls_of (r # rs))" if "fst r = 0"
    using that by (auto simp: called_def)
  from Cons.IH [of ?o] obtain m where o:
    "sigint (state_of (and_then (redirect_all e rs ?o) ?k)) = sigint st"
    "sigtstp (state_of (and_then (redirect_all e rs ?o) ?k)) = sigtstp st"
    "trace (state_of (and_then (redirect_all e rs ?o) ?k)) =
       trace st @ take (Suc (Suc m)) (calls_of (r # rs))" if "fst r \<noteq> 0"
    using that by (auto simp: called_def)
  show ?case
  proof (cases "fst r = 0")
    case True
    have a: "trace (called (Open_read (snd r)) st) = trace st @ take 1 (calls_of (r # rs))"
      "trace (called (Dup2 0) (called (Open_read (snd r)) st)) = trace st @ take 2 (calls_of (r # rs))"
      using True by (simp_all add: called_def)
    have f: "sigint (called (Open_read (snd r)) st) = sigint st"
      "sigtstp (called (Open_read (snd r)) st) = sigtstp st"
      "sigint (called (Dup2 0) (called (Open_read (snd r)) st)) = sigint st"
      "sigtstp (called (Dup2 0) (called (Open_read (snd r)) st)) = sigtstp st"
      by (simp_all add: called_def)
    show ?thesis
      unfolding redirect_all.simps and_then_assoc using True i [OF True] a f
      by (auto simp: input_redirection_then simp del: calls_of.simps)
  next
    case False
    have a: "trace (called (Open_write (snd r)) st) = trace st @ take 1 (calls_of (r # rs))"
      "trace (called (Dup2 1) (called (Open_write (snd r)) st)) = trace st @ take 2 (calls_of (r # rs))"
      using False by (simp_all add: called_def)
    have f: "sigint (called (Open_write (snd r)) st) = sigint st"
      "sigtstp (called (Open_write (snd r)) st) = sigtstp st"
      "sigint (called (Dup2 1) (called (Open_write (snd r)) st)) = sigint st"
      "sigtstp (called (Dup2 1) (called (Open_write (snd r)) st)) = sigtstp st"
      by (simp_all add: called_def)
    show ?thesis
      unfolding redirect_all.simps and_then_assoc using False o [OF False] a f
      by (auto simp: output_redirection_then simp del: calls_of.simps)
  qed
qed

lemma redirected_redirections:
  "redirected (redirections bg (info s)) (child_start bg p s) = child_at_exec bg p s"
proof (cases bg)
  case b: True
  show ?thesis
  proof (cases "input_redirect (info s) = 0")
    case i: True
    show ?thesis
      by (cases "output_redirect (info s) = 0")
         (simp_all add: b i redirections_def child_start_def child_at_exec_def called_def)
  next
    case i: False
    show ?thesis
      by (cases "output_redirect (info s) = 0")
         (simp_all add: b i redirections_def child_start_def child_at_exec_def called_def)
  qed
next
  case b: False
  show ?thesis
  proof (cases "input_redirect (info s) = 0")
    case i: True
    show ?thesis
      by (cases "output_redirect (info s) = 0")
         (simp_all add: b i redirections_def child_start_def child_at_exec_def called_def)
  next
    case i: False
    show ?thesis
      by (cases "output_redirect (info s) = 0")
         (simp_all add: b i redirections_def child_start_def child_at_exec_def called_def)
  qed
qed

lemma child_Exec_iff:
  "(other_cmd_child e p args st = Exec a s') =
     (redirects_ok e (redirections (background (info st) \<noteq> 0 \<and> stop_background (after_fork e st) = 0) (info st)) \<and>
      exec_ok e \<and> a = args \<and>
      s' = child_at_exec (background (info st) \<noteq> 0 \<and> stop_background (after_fork e st) = 0) p
             (after_fork e st))"
proof -
  let ?bg = "background (info st) \<noteq> 0 \<and> stop_background (after_fork e st) = 0"
  have i: "info (after_fork e st) = info st" by (simp add: after_fork_frame)
  show ?thesis
    unfolding child_unfold and_then_Exec redirect_all_Return
    using redirected_redirections [of ?bg "after_fork e st" p] redirect_all_not_Exec
    by (auto simp: i)
qed

lemma child_any_outcome:
  "sigtstp (state_of (other_cmd_child e p args st)) = SIG_IGN \<and>
   sigint (state_of (other_cmd_child e p args st)) =
     (if background (info st) \<noteq> 0 \<and> stop_background (after_fork e st) = 0 then sigint st
      else SIG_DFL) \<and>
   (\<exists>n. trace (state_of (other_cmd_child e p args st)) =
      trace (after_fork e st) @
      (if background (info st) \<noteq> 0 \<and> stop_background (after_fork e st) = 0
       then [Write (''background pid is '' @ show_int p @ [SP, NL])] else []) @
      take n (calls_of (redirections
         (background (info st) \<noteq> 0 \<and> stop_background (after_fork e st) = 0) (info st))))"
proof -
  let ?bg = "background (info st) \<noteq> 0 \<and> stop_background (after_fork e st) = 0"
  from redirect_all_frame [of e "redirections ?bg (info st)" "child_start ?bg p (after_fork e st)" args]
  show ?thesis
    unfolding child_unfold by (auto simp: child_start_def after_fork_frame)
qed

subsection \<open>The parent\<close>

lemma settle_append: "settle ign dead (a @ b) = settle ign dead a @ settle ign dead b"
  by (simp add: settle_def)

lemma settle_fresh: "p \<notin> fst ` set tbl \<Longrightarrow> p \<notin> fst ` set (settle ign dead tbl)"
  by (force simp: settle_def split: if_splits)

lemma settle_new_child:
  "settle ign dead [(p, Running f)] =
     (case f of
        None \<Rightarrow> [(p, Running None)]
      | Some w \<Rightarrow> if p \<in> set dead then (if ign then [] else [(p, Zombie w)])
                  else [(p, Running (Some w))])"
  by (simp add: settle_def split: option.splits)

lemma waitpid_new_child:
  assumes "0 < p" and "p \<notin> fst ` set tbl"
  shows "waitpid ign p opts (tbl @ [(p, Zombie w)]) = Returns p (Some w) tbl"
    and "waitpid ign p WNOHANG (tbl @ [(p, Running f)]) = Returns 0 None (tbl @ [(p, Running f)])"
    and "waitpid ign p opts tbl = Returns (- 1) None tbl"
    and "waitpid ign p NoOptions (tbl @ [(p, Running None)]) = Suspends"
    and "waitpid False p NoOptions (tbl @ [(p, Running (Some w))]) = Returns p (Some w) tbl"
    and "waitpid True p NoOptions (tbl @ [(p, Running (Some w))]) = Returns (- 1) None tbl"
proof -
  have n: "filter (\<lambda>c. p = - 1 \<or> fst c = p) tbl = []"
    using assms by (auto simp: filter_empty_conv)
  have m: "\<And>x. filter (\<lambda>c. p = - 1 \<or> fst c = p) (tbl @ [(p, x)]) = [(p, x)]"
    using n by simp
  have k: "filter (\<lambda>c. p \<noteq> - 1 \<and> fst c \<noteq> p) tbl = tbl"
    using assms by (auto simp: filter_id_conv)
  have n2: "filter (\<lambda>c. fst c = p) tbl = []"
    using assms by (auto simp: filter_empty_conv)
  have k2: "filter (\<lambda>c. fst c \<noteq> p) tbl = tbl"
    using assms by (auto simp: filter_id_conv)
  have "\<And>x. (p, x) \<notin> set tbl"
    using assms(2) by (metis fst_conv image_eqI)
  then have r: "\<And>x. remove1 (p, x) (tbl @ [(p, x)]) = tbl"
    by (simp add: remove1_append)
  show "waitpid ign p opts (tbl @ [(p, Zombie w)]) = Returns p (Some w) tbl"
    by (simp add: waitpid_def Let_def m r del: filter_append)
  show "waitpid ign p WNOHANG (tbl @ [(p, Running f)]) = Returns 0 None (tbl @ [(p, Running f)])"
    by (simp add: waitpid_def Let_def m del: filter_append)
  show "waitpid ign p opts tbl = Returns (- 1) None tbl"
    by (simp add: waitpid_def Let_def n)
  show "waitpid ign p NoOptions (tbl @ [(p, Running None)]) = Suspends"
    by (simp add: waitpid_def Let_def m del: filter_append)
  show "waitpid False p NoOptions (tbl @ [(p, Running (Some w))]) = Returns p (Some w) tbl"
    by (simp add: waitpid_def Let_def m r del: filter_append)
  show "waitpid True p NoOptions (tbl @ [(p, Running (Some w))]) = Returns (- 1) None tbl"
    using assms(1) n2 k2 by (simp add: waitpid_def Let_def)
qed


lemma parent_background:
  assumes "0 < p" and "p \<notin> fst ` set (children st)"
    and "background (info st) \<noteq> 0" and "stop_background (after_fork e st) = 0"
  shows "other_cmd_parent e p st =
           Return ((after_fork e st)
             \<lparr>trace := trace (after_fork e st) @ [Waitpid p WNOHANG],
              children :=
                settle (sigchld st = SIG_IGN) (ended_by e (length (trace (after_fork e st)))) (children st) @
                (case child_fate e of
                   None \<Rightarrow> [(p, Running None)]
                 | Some w \<Rightarrow> if p \<in> set (ended_by e (length (trace (after_fork e st)))) then []
                             else [(p, Running (Some w))]),
              info :=
                (case child_fate e of
                   None \<Rightarrow> info st
                 | Some w \<Rightarrow>
                     if p \<in> set (ended_by e (length (trace (after_fork e st)))) \<and> sigchld st \<noteq> SIG_IGN
                     then (info st)\<lparr>exit_status := w\<rparr> else info st)\<rparr>)"
proof -
  let ?ign = "sigchld st = SIG_IGN"
  let ?dead = "ended_by e (length (trace (after_fork e st)))"
  let ?others = "settle ?ign ?dead (children st)"
  note w = waitpid_new_child [OF assms(1) settle_fresh [OF assms(2)]]
  have u: "other_cmd_parent e p st =
      and_then (sys_waitpid e p WNOHANG
                  ((after_fork e st)\<lparr>children := children st @ [(p, Running (child_fate e))]\<rparr>))
        (\<lambda>r. Return (snd r))"
    using assms(3,4)
    by (simp add: other_cmd_parent_def Let_def after_fork_children_update after_fork_frame)
  show ?thesis
  proof (cases "child_fate e")
    case None
    show ?thesis unfolding u
      by (simp add: sys_waitpid_def Let_def after_fork_frame settle_append settle_new_child None w)
  next
    case (Some x)
    show ?thesis
    proof (cases "p \<in> set ?dead")
      case d: True
      show ?thesis
      proof (cases ?ign)
        case True
        show ?thesis unfolding u using d True
          by (simp add: sys_waitpid_def Let_def after_fork_frame settle_append settle_new_child Some w)
      next
        case False
        show ?thesis unfolding u using d False
          by (simp add: sys_waitpid_def Let_def after_fork_frame settle_append settle_new_child Some w)
      qed
    next
      case d: False
      show ?thesis unfolding u using d
        by (simp add: sys_waitpid_def Let_def after_fork_frame settle_append settle_new_child Some w)
    qed
  qed
qed


lemma parent_foreground:
  assumes "0 < p" and "p \<notin> fst ` set (children st)"
    and "background (info st) = 0 \<or> stop_background (after_fork e st) \<noteq> 0"
  shows "other_cmd_parent e p st =
           (case child_fate e of
              None \<Rightarrow>
                Blocked ((after_fork e st)
                  \<lparr>trace := trace (after_fork e st) @ [Waitpid p NoOptions],
                   children :=
                     settle (sigchld st = SIG_IGN) (ended_by e (length (trace (after_fork e st))))
                       (children st) @ [(p, Running None)]\<rparr>)
            | Some w \<Rightarrow>
                Return ((after_fork e st)
                  \<lparr>trace := trace (after_fork e st) @ Waitpid p NoOptions #
                      (if (if sigchld st = SIG_IGN then exit_status (info st) else w) \<noteq> 0
                       then [Write (status_text (if sigchld st = SIG_IGN then exit_status (info st) else w))]
                       else []),
                   children :=
                     settle (sigchld st = SIG_IGN) (ended_by e (length (trace (after_fork e st))))
                       (children st),
                   info := (if sigchld st = SIG_IGN then info st else (info st)\<lparr>exit_status := w\<rparr>)\<rparr>))"
proof -
  let ?ign = "sigchld st = SIG_IGN"
  let ?dead = "ended_by e (length (trace (after_fork e st)))"
  note w = waitpid_new_child [OF assms(1) settle_fresh [OF assms(2)]]
  have u: "other_cmd_parent e p st =
      and_then (sys_waitpid e p NoOptions
                  ((after_fork e st)\<lparr>children := children st @ [(p, Running (child_fate e))]\<rparr>))
        (\<lambda>r. if exit_status (info (snd r)) \<noteq> 0
             then Return (my_status (exit_status (info (snd r))) (snd r))
             else Return (snd r))"
    using assms(3)
    by (auto simp: other_cmd_parent_def Let_def after_fork_children_update after_fork_frame)
  note ev = sys_waitpid_def Let_def after_fork_frame settle_append settle_new_child
    my_status_def print_def
  show ?thesis
  proof (cases "child_fate e")
    case None
    show ?thesis unfolding u by (simp add: ev None w)
  next
    case (Some x)
    show ?thesis
    proof (cases "p \<in> set ?dead")
      case d: True
      show ?thesis
      proof (cases ?ign)
        case True
        show ?thesis unfolding u using d True by (simp add: ev Some w)
      next
        case False
        show ?thesis unfolding u using d False by (simp add: ev Some w)
      qed
    next
      case d: False
      show ?thesis
      proof (cases ?ign)
        case True
        show ?thesis unfolding u using d True by (simp add: ev Some w)
      next
        case False
        show ?thesis unfolding u using d False by (simp add: ev Some w)
      qed
    qed
  qed
qed

subsection \<open>The two sides of a spawn\<close>

lemmas spawn_eval =
  other_cmd_def other_cmd_child_def other_cmd_parent_def after_fork_def deliver_SIGTSTP_def
  handle_SIG_def custom_IG_def print_def called_def my_status_def status_text_def WIFEXITED_def
  WTERMSIG_def WEXITSTATUS_def show_int_def dec.simps sys_waitpid_def waitpid_def settle_def
  input_redirection_def output_redirection_def cstr_def
  background_request_def sort_request_def calm_def idle_shell_def zero_info_def Let_def

text \<open>
  C4, as the code has it. \<open>info->background && !stop_background\<close> is evaluated
  twice for each spawn, behind the \<open>fork\<close>: by the child and by the parent, each
  on its own copy of the flag. When no SIGTSTP reaches either process between the
  \<open>fork\<close> and its test, both act on the value \<open>bg\<close> the expression had at the
  \<open>fork\<close>, and the whole configuration of the child agrees with the wait of the
  parent. The child: SIGTSTP ignored; SIGINT as the shell has it when \<open>bg\<close> holds
  and at its default otherwise; the announcement written exactly when \<open>bg\<close>
  holds; after it nothing but the calls of the redirections that \<open>bg\<close> and the
  request prescribe (so \<open>/dev/null\<close> is opened exactly when \<open>bg\<close> holds and the
  request names no file for the stream), as far as they succeed; and \<open>execvp\<close> is
  reached exactly when they all succeed, in the state \<open>child_at_exec bg\<close>, whose
  two streams are the files of the request, else \<open>/dev/null\<close> when \<open>bg\<close> holds,
  else those of the shell. The parent: its first call is \<open>waitpid\<close> on this child,
  with WNOHANG exactly when \<open>bg\<close> holds. A toggle that comes later changes the
  flag and the trace and nothing else: not the table of children, not the request,
  not a descriptor.
\<close>

theorem background_decided_in_each_process:
  assumes "fork ec = Fork_child p" and "fork ep = Fork_parent p"
    and "0 < p" and "p \<notin> fst ` set (children st)"
    and "tstp_after_fork ec = 0" and "tstp_after_fork ep = 0"
  shows "sigtstp (state_of (other_cmd ec args st)) = SIG_IGN \<and>
         sigint (state_of (other_cmd ec args st)) =
           (if background (info st) \<noteq> 0 \<and> stop_background st = 0 then sigint st else SIG_DFL) \<and>
         (\<exists>n. trace (state_of (other_cmd ec args st)) =
            trace st @
            (if background (info st) \<noteq> 0 \<and> stop_background st = 0
             then [Write (''background pid is '' @ show_int p @ [SP, NL])] else []) @
            take n (calls_of (redirections (background (info st) \<noteq> 0 \<and> stop_background st = 0) (info st)))) \<and>
         (\<forall>a s'. (other_cmd ec args st = Exec a s') =
            (redirects_ok ec (redirections (background (info st) \<noteq> 0 \<and> stop_background st = 0) (info st)) \<and>
             exec_ok ec \<and> a = args \<and>
             s' = child_at_exec (background (info st) \<noteq> 0 \<and> stop_background st = 0) p st)) \<and>
         take (Suc (length (trace st))) (trace (state_of (other_cmd ep args st))) =
           trace st @ [Waitpid p (if background (info st) \<noteq> 0 \<and> stop_background st = 0
                                  then WNOHANG else NoOptions)] \<and>
         deliver_SIGTSTP st =
           st\<lparr>stop_background := stop_background (deliver_SIGTSTP st),
              trace := trace (deliver_SIGTSTP st)\<rparr>"
proof -
  have q: "after_fork ec st = st" "after_fork ep st = st"
    using assms(5,6) by (simp_all add: after_fork_quiet)
  have c: "other_cmd ec args st = other_cmd_child ec p args st"
    and d: "other_cmd ep args st = other_cmd_parent ep p st"
    using assms(1,2) by (simp_all add: other_cmd_def)
  note any = child_any_outcome [of ec p args st, unfolded q]
  note ex = child_Exec_iff [of ec p args st, unfolded q]
  have par: "take (Suc (length (trace st))) (trace (state_of (other_cmd_parent ep p st))) =
           trace st @ [Waitpid p (if background (info st) \<noteq> 0 \<and> stop_background st = 0
                                  then WNOHANG else NoOptions)]"
  proof (cases "background (info st) \<noteq> 0 \<and> stop_background st = 0")
    case True
    then have b: "background (info st) \<noteq> 0" "stop_background (after_fork ep st) = 0"
      by (simp_all add: q)
    show ?thesis
      unfolding parent_background [OF assms(3,4) b] using True by (simp add: q)
  next
    case False
    then have f: "background (info st) = 0 \<or> stop_background (after_fork ep st) \<noteq> 0"
      by (auto simp: q)
    show ?thesis
      unfolding parent_foreground [OF assms(3,4) f] using False
      by (cases "child_fate ep") (auto simp: q)
  qed
  have fr: "deliver_SIGTSTP st =
           st\<lparr>stop_background := stop_background (deliver_SIGTSTP st),
              trace := trace (deliver_SIGTSTP st)\<rparr>"
    by (simp add: deliver_SIGTSTP_def handle_SIG_def print_def)
  from any ex par fr show ?thesis unfolding c d by blast
qed

theorem background_decided_in_each_process_witness:
  "other_cmd (calm\<lparr>fork := Fork_child 101\<rparr>) [''sleep'', ''5''] background_request =
     Exec [''sleep'', ''5''] (child_at_exec True 101 background_request) \<and>
   sigint (child_at_exec True 101 background_request) = SIG_IGN \<and>
   fd0 (child_at_exec True 101 background_request) = File ''/dev/null'' \<and>
   fd1 (child_at_exec True 101 background_request) = File ''/dev/null'' \<and>
   take 1 (trace (state_of (other_cmd (calm\<lparr>fork := Fork_parent 101\<rparr>) [''sleep'', ''5''] background_request))) =
     [Waitpid 101 WNOHANG] \<and>
   other_cmd (calm\<lparr>fork := Fork_child 101\<rparr>) [''sleep'', ''5''] idle_shell =
     Exec [''sleep'', ''5''] (child_at_exec False 101 idle_shell) \<and>
   sigint (child_at_exec False 101 idle_shell) = SIG_DFL \<and>
   fd0 (child_at_exec False 101 idle_shell) = Terminal \<and>
   fd1 (child_at_exec False 101 idle_shell) = Terminal \<and>
   take 1 (trace (state_of (other_cmd (calm\<lparr>fork := Fork_parent 101\<rparr>) [''sleep'', ''5''] idle_shell))) =
     [Waitpid 101 NoOptions]"
proof -
  let ?ec = "calm\<lparr>fork := Fork_child 101\<rparr>"
  let ?ep = "calm\<lparr>fork := Fork_parent 101\<rparr>"
  let ?args = "[''sleep'', ''5'']"
  have h: "fork ?ec = Fork_child 101" "fork ?ep = Fork_parent 101" "(0::int) < 101"
    "101 \<notin> fst ` set (children background_request)" "101 \<notin> fst ` set (children idle_shell)"
    "tstp_after_fork ?ec = 0" "tstp_after_fork ?ep = 0"
    by (simp_all add: calm_def background_request_def idle_shell_def)
  note fixtures = calm_def background_request_def idle_shell_def zero_info_def
  note b = background_decided_in_each_process [OF h(1,2,3,4,6,7), of ?args]
  note f = background_decided_in_each_process [OF h(1,2,3,5,6,7), of ?args]
  from b have b1: "other_cmd ?ec ?args background_request =
      Exec ?args (child_at_exec True 101 background_request)"
    by (simp add: fixtures redirections_def)
  from b have b2: "take 1 (trace (state_of (other_cmd ?ep ?args background_request))) =
      [Waitpid 101 WNOHANG]"
    by (simp add: fixtures)
  from f have f1: "other_cmd ?ec ?args idle_shell = Exec ?args (child_at_exec False 101 idle_shell)"
    by (simp add: fixtures redirections_def)
  from f have f2: "take 1 (trace (state_of (other_cmd ?ep ?args idle_shell))) = [Waitpid 101 NoOptions]"
    by (simp add: fixtures)
  show ?thesis unfolding b1 b2 f1 f2
    by (simp add: child_at_exec_def fixtures)
qed

text \<open>
  C4 as the specification words it fails when the shell receives SIGTSTP between
  the return of \<open>fork\<close> and its test of the flag: the child of \<open>sleep 5 &\<close> has
  configured itself for the background (announcement, SIGINT ignored, both streams
  on the null device) and the parent, whose handler has meanwhile set the flag,
  waits for it with a blocking \<open>waitpid\<close>.
\<close>

theorem background_decision_race:
  "other_cmd (calm\<lparr>fork := Fork_child 101\<rparr>) [''sleep'', ''5''] background_request =
     Exec [''sleep'', ''5'']
       (background_request
          \<lparr>sigtstp := SIG_IGN, fd0 := File ''/dev/null'', fd1 := File ''/dev/null'',
           trace := [Write (''background pid is 101 '' @ [NL]),
                     Open_write ''/dev/null'', Dup2 1, Open_read ''/dev/null'', Dup2 0]\<rparr>) \<and>
   other_cmd (calm\<lparr>fork := Fork_parent 101, tstp_after_fork := 1\<rparr>) [''sleep'', ''5''] background_request =
     Blocked
       (background_request
          \<lparr>stop_background := 1, children := [(101, Running None)],
           trace := [Write (''Entering foreground-only mode (& is now ignored) '' @ [NL]),
                     Waitpid 101 NoOptions]\<rparr>)"
  by (simp add: spawn_eval)




text \<open>
  C7, as the code has it. A request with \<open>background\<close> set runs in the foreground
  when \<open>stop_background\<close> is set at the moment the child and the parent each test
  it, behind the \<open>fork\<close>. The child then has SIGINT at its default however it
  ends, and reaches \<open>execvp\<close> exactly when the redirections of a foreground
  request succeed, in the state \<open>child_at_exec False\<close> (no stream on
  \<open>/dev/null\<close> unless the request names it). The parent calls \<open>waitpid\<close> on that
  child without WNOHANG: if the child never terminates the parent stays suspended;
  otherwise it returns with the child gone from the table, the child's status in
  \<open>exit_status\<close> and printed when it is not 0. With SIGCHLD ignored the wait
  lasts as long, but it delivers no status: \<open>exit_status\<close> stays and it is the
  old value that is tested and printed.
\<close>

theorem foreground_only_runs_in_foreground:
  assumes "fork ec = Fork_child p" and "fork ep = Fork_parent p"
    and "0 < p" and "p \<notin> fst ` set (children st)"
    and "background (info st) \<noteq> 0"
    and "stop_background (after_fork ec st) \<noteq> 0" and "stop_background (after_fork ep st) \<noteq> 0"
  shows "sigint (state_of (other_cmd ec args st)) = SIG_DFL \<and>
         (\<forall>a s'. (other_cmd ec args st = Exec a s') =
            (redirects_ok ec (redirections False (info st)) \<and> exec_ok ec \<and> a = args \<and>
             s' = child_at_exec False p (after_fork ec st))) \<and>
         other_cmd ep args st =
           (case child_fate ep of
              None \<Rightarrow>
                Blocked ((after_fork ep st)
                  \<lparr>trace := trace (after_fork ep st) @ [Waitpid p NoOptions],
                   children :=
                     settle (sigchld st = SIG_IGN) (ended_by ep (length (trace (after_fork ep st))))
                       (children st) @ [(p, Running None)]\<rparr>)
            | Some w \<Rightarrow>
                Return ((after_fork ep st)
                  \<lparr>trace := trace (after_fork ep st) @ Waitpid p NoOptions #
                      (if (if sigchld st = SIG_IGN then exit_status (info st) else w) \<noteq> 0
                       then [Write (status_text (if sigchld st = SIG_IGN then exit_status (info st) else w))]
                       else []),
                   children :=
                     settle (sigchld st = SIG_IGN) (ended_by ep (length (trace (after_fork ep st))))
                       (children st),
                   info := (if sigchld st = SIG_IGN then info st else (info st)\<lparr>exit_status := w\<rparr>)\<rparr>))"
proof -
  have d: "background (info st) = 0 \<or> stop_background (after_fork ep st) \<noteq> 0"
    using assms(7) by simp
  from child_any_outcome [of ec p args st] child_Exec_iff [of ec p args st]
    parent_foreground [OF assms(3,4) d] assms(1,2,6)
  show ?thesis by (simp add: other_cmd_def)
qed

theorem foreground_only_runs_in_foreground_witness:
  "other_cmd (calm\<lparr>fork := Fork_child 101\<rparr>) [''sleep'', ''5''] (background_request\<lparr>stop_background := 1\<rparr>) =
     Exec [''sleep'', ''5'']
       (background_request\<lparr>stop_background := 1, sigint := SIG_DFL, sigtstp := SIG_IGN\<rparr>) \<and>
   sigint (state_of (other_cmd (calm\<lparr>fork := Fork_child 101\<rparr>) [''sleep'', ''5'']
      (background_request\<lparr>stop_background := 1\<rparr>))) = SIG_DFL \<and>
   other_cmd (calm\<lparr>fork := Fork_parent 101\<rparr>) [''sleep'', ''5''] (background_request\<lparr>stop_background := 1\<rparr>) =
     Blocked (background_request\<lparr>stop_background := 1, children := [(101, Running None)],
                                trace := [Waitpid 101 NoOptions]\<rparr>) \<and>
   other_cmd (calm\<lparr>fork := Fork_parent 101, child_fate := Some 256\<rparr>) [''sleep'', ''5'']
      (background_request\<lparr>stop_background := 1\<rparr>) =
     Return (background_request\<lparr>stop_background := 1, info := zero_info\<lparr>background := 1, exit_status := 256\<rparr>,
                               trace := [Waitpid 101 NoOptions, Write (''exit value 1 '' @ [NL])]\<rparr>)"
proof -
  let ?st = "background_request\<lparr>stop_background := 1\<rparr>"
  let ?ec = "calm\<lparr>fork := Fork_child 101\<rparr>"
  let ?ep = "calm\<lparr>fork := Fork_parent 101\<rparr>"
  let ?eq = "calm\<lparr>fork := Fork_parent 101, child_fate := Some 256\<rparr>"
  note fixtures = calm_def background_request_def idle_shell_def zero_info_def after_fork_def
  have h: "fork ?ec = Fork_child 101" "fork ?ep = Fork_parent 101" "(0::int) < 101"
    "101 \<notin> fst ` set (children ?st)" "background (info ?st) \<noteq> 0"
    "stop_background (after_fork ?ec ?st) \<noteq> 0" "stop_background (after_fork ?ep ?st) \<noteq> 0"
    and k: "fork ?eq = Fork_parent 101" "stop_background (after_fork ?eq ?st) \<noteq> 0"
    by (simp_all add: fixtures)
  note a = foreground_only_runs_in_foreground [OF h, of "[''sleep'', ''5'']"]
  note b = foreground_only_runs_in_foreground [OF h(1) k(1) h(3,4,5,6) k(2), of "[''sleep'', ''5'']"]
  from a have a1: "other_cmd ?ec [''sleep'', ''5''] ?st =
      Exec [''sleep'', ''5''] (child_at_exec False 101 (after_fork ?ec ?st))"
    by (simp add: fixtures redirections_def)
  from a have a2: "sigint (state_of (other_cmd ?ec [''sleep'', ''5''] ?st)) = SIG_DFL" by simp
  from a have a3: "other_cmd ?ep [''sleep'', ''5''] ?st =
     Blocked (background_request\<lparr>stop_background := 1, children := [(101, Running None)],
                                trace := [Waitpid 101 NoOptions]\<rparr>)"
    by (simp add: fixtures settle_def)
  from b have b3: "other_cmd ?eq [''sleep'', ''5''] ?st =
     Return (background_request\<lparr>stop_background := 1, info := zero_info\<lparr>background := 1, exit_status := 256\<rparr>,
                               trace := [Waitpid 101 NoOptions, Write (''exit value 1 '' @ [NL])]\<rparr>)"
    by (simp add: fixtures settle_def status_text_def WIFEXITED_def WTERMSIG_def WEXITSTATUS_def
        show_int_def dec.simps)
  show ?thesis unfolding a1 a2 a3 b3
    by (simp add: child_at_exec_def fixtures redirections_def)
qed

text \<open>
  C7 as the specification words it fails. The flag that is set when the request
  is issued may be cleared before it is tested: with \<open>stop_background\<close> set and one
  SIGTSTP delivered between the return of \<open>fork\<close> and the test, the parent of
  \<open>sleep 5 &\<close> polls with WNOHANG and returns while the child is running, and the
  child that receives the signal there keeps SIGINT ignored, announces itself and
  reaches \<open>execvp\<close> with both streams on \<open>/dev/null\<close>.
\<close>

theorem foreground_only_race:
  "other_cmd (calm\<lparr>fork := Fork_parent 101, tstp_after_fork := 1\<rparr>) [''sleep'', ''5'']
      (background_request\<lparr>stop_background := 1\<rparr>) =
     Return (background_request
        \<lparr>stop_background := 0, children := [(101, Running None)],
         trace := [Write (''Exiting foreground-only mode '' @ [NL]), Waitpid 101 WNOHANG]\<rparr>) \<and>
   other_cmd (calm\<lparr>fork := Fork_child 101, tstp_after_fork := 1\<rparr>) [''sleep'', ''5'']
      (background_request\<lparr>stop_background := 1\<rparr>) =
     Exec [''sleep'', ''5'']
       (background_request
          \<lparr>stop_background := 0, sigint := SIG_IGN, sigtstp := SIG_IGN,
           fd0 := File ''/dev/null'', fd1 := File ''/dev/null'',
           trace := [Write (''Exiting foreground-only mode '' @ [NL]),
                     Write (''background pid is 101 '' @ [NL]),
                     Open_write ''/dev/null'', Dup2 1, Open_read ''/dev/null'', Dup2 0]\<rparr>)"
  by (simp add: spawn_eval)



section \<open>Properties of the commands\<close>

lemmas cycle_eval =
  shell_cycle_def get_input_def parse_line_def parse_loop.simps strtok_r_def strcpy_buf_def
  init_shell_info_def execute_cmd_def other_cmd_def other_cmd_child_def other_cmd_parent_def
  after_fork_def deliver_SIGTSTP_def handle_SIG_def custom_IG_def print_def called_def my_status_def
  status_text_def WIFEXITED_def WTERMSIG_def WEXITSTATUS_def show_int_def dec.simps
  sys_waitpid_def waitpid_def settle_def reap_sweep.simps my_exit_def my_cd_def
  input_redirection_def output_redirection_def cstr_def
  calm_def idle_shell_def zero_info_def three_children_def Let_def

text \<open>
  C2. The child that cannot rebind its standard input leaves with \<open>exit(0)\<close>, the
  status of success, where the same failure on standard output leaves with
  \<open>exit(1)\<close>: in the child of \<open>cat < in.txt\<close> with \<open>dup2(fd, 0)\<close> failing, and in
  the child of \<open>cat > out.txt\<close> with \<open>dup2(fd, 1)\<close> failing.
\<close>

theorem input_rebind_failure_exits_zero:
  "exit_code (shell_cycle (calm\<lparr>fork := Fork_child 101, dup2_ok := (\<lambda>n. n \<noteq> 0)\<rparr>)
                (''cat < in.txt'' @ [NL]) idle_shell) = Some 0 \<and>
   exit_code (shell_cycle (calm\<lparr>fork := Fork_child 101, dup2_ok := (\<lambda>n. n \<noteq> 1)\<rparr>)
                (''cat > out.txt'' @ [NL]) idle_shell) = Some 1"
  by (simp add: cycle_eval)

subsection \<open>The sweep\<close>

text \<open>
  A poll with WNOHANG returns at once, whatever the table of children holds. So the
  sweep always returns, only adding to the trace, and \<open>execute_cmd\<close> and the
  command cycle, whenever they return, have a sweep as their last step.
\<close>

lemma sys_waitpid_poll:
  "\<exists>r st1. sys_waitpid e pid WNOHANG st = Return (r, st1) \<and>
     trace st1 = trace st @ [Waitpid pid WNOHANG] \<and>
     sigint st1 = sigint st \<and> sigtstp st1 = sigtstp st"
proof -
  let ?ign = "sigchld st = SIG_IGN"
  let ?tbl = "settle ?ign (ended_by e (length (trace st))) (children st)"
  have "waitpid ?ign pid WNOHANG ?tbl \<noteq> Suspends"
    by (simp add: waitpid_def Let_def split: option.splits)
  then obtain r w tbl' where "waitpid ?ign pid WNOHANG ?tbl = Returns r w tbl'"
    by (cases "waitpid ?ign pid WNOHANG ?tbl") auto
  then show ?thesis by (simp add: sys_waitpid_def Let_def)
qed

lemma reap_sweep_returns:
  "\<exists>st' sfx. reap_sweep e st = Return st' \<and> trace st' = trace st @ sfx \<and>
     sigint st' = sigint st \<and> sigtstp st' = sigtstp st"
proof (induction e st rule: reap_sweep.induct)
  case (1 e st)
  from sys_waitpid_poll [of e "- 1" st] obtain r st1 where
    w: "sys_waitpid e (- 1) WNOHANG st = Return (r, st1)"
    and t1: "trace st1 = trace st @ [Waitpid (- 1) WNOHANG]"
    and k: "sigint st1 = sigint st" "sigtstp st1 = sigtstp st"
    by blast
  show ?case
  proof (cases "0 < r")
    case True
    let ?st2 = "my_status (exit_status (info st1))
                  (print (''background pid '' @ show_int r @ '' is done: '') st1)"
    from "1.IH" [OF w] True obtain st' sfx where
      a: "reap_sweep e ?st2 = Return st'" and b: "trace st' = trace ?st2 @ sfx"
      and c: "sigint st' = sigint ?st2" "sigtstp st' = sigtstp ?st2" by auto
    have "reap_sweep e st = reap_sweep e ?st2" using w True by (subst reap_sweep.simps) simp
    with a b c t1 k show ?thesis by (simp add: my_status_def print_def)
  next
    case False
    with w have "reap_sweep e st = Return st1" by (subst reap_sweep.simps) simp
    with t1 k show ?thesis by simp
  qed
qed

lemma execute_cmd_ends_in_sweep:
  assumes "execute_cmd e args st = Return (r, st')"
  shows "\<exists>st1. reap_sweep e st1 = Return st'"
proof -
  from assms obtain a0 as where a: "args = a0 # as" by (cases args) (auto simp: execute_cmd_def)
  from assms [unfolded a execute_cmd_def list.case and_then_Return]
  show ?thesis by auto
qed

lemma shell_cycle_ends_in_sweep:
  assumes "shell_cycle e buf st = Return (r, st')"
  shows "\<exists>st1. reap_sweep e st1 = Return st'"
  using assms execute_cmd_ends_in_sweep
  by (fastforce simp: shell_cycle_def Let_def split: sum.splits prod.splits)

text \<open>
  C9. The sweep stands at the end of \<open>execute_cmd\<close>, and a line on which
  \<open>parse_line\<close> faults never gets there. In a shell with two terminated
  background children (100, which exited with 0, and 102, killed by signal 2)
  waiting to be reaped: on a line of blanks, and on the comment \<open># see >\<close>, the
  cycle ends in \<open>parse_line\<close> on a null pointer (\<open>strlen\<close> of the missing first
  token, \<open>strcpy\<close> of the missing file name) after the prompt, with no poll, no
  report and both children still in the table. On the line that is a newline only
  the sweep does run: it reports 100 and 102 and stops at the poll that finds no
  further terminated child.
\<close>

theorem sweep_skipped_on_unparsed_line:
  "shell_cycle calm (''   '' @ [NL]) three_children =
     Fault NullDeref (three_children\<lparr>trace := [Write '': '']\<rparr>) \<and>
   shell_cycle calm (''# see >'' @ [NL]) three_children =
     Fault NullDeref (three_children\<lparr>trace := [Write '': '']\<rparr>) \<and>
   shell_cycle calm [NL] three_children =
     Return (1, three_children
        \<lparr>children := [(101, Running None)], info := zero_info\<lparr>exit_status := 2\<rparr>,
         trace := [Write '': '',
                   Waitpid (- 1) WNOHANG, Write ''background pid 100 is done: '',
                   Write (''exit value 0 '' @ [NL]),
                   Waitpid (- 1) WNOHANG, Write ''background pid 102 is done: '',
                   Write (''terminated by signal 2 '' @ [NL]),
                   Waitpid (- 1) WNOHANG]\<rparr>)"
  by (simp add: cycle_eval)

section \<open>Properties of the recorded status\<close>

lemmas session_eval =
  shell_loop.simps cycle_eval W_EXITCODE_def

text \<open>
  C3. A session of two lines, \<open>make\<close> and then \<open>status\<close>, in a shell one of whose
  background children (100) has exited with 0 and is not yet reaped. \<open>make\<close> runs
  in the foreground and exits with 3; the report \<open>exit value 3\<close> is printed at once.
  The sweep of the same cycle then stores the status of child 100 in
  \<open>exit_status\<close>, and \<open>status\<close>, with no command in between, prints
  \<open>exit value 0\<close>: the status of a background child, not that of the last
  foreground process.
\<close>

theorem status_overwritten_by_sweep:
  "trace (state_of (shell_loop
      [(calm\<lparr>fork := Fork_parent 101, child_fate := Some (W_EXITCODE 3)\<rparr>, ''make'' @ [NL]),
       (calm, ''status'' @ [NL])]
      (idle_shell\<lparr>children := [(100, Zombie (W_EXITCODE 0))]\<rparr>))) =
   [Write '': '', Waitpid 101 NoOptions, Write (''exit value 3 '' @ [NL]),
    Waitpid (- 1) WNOHANG, Write ''background pid 100 is done: '', Write (''exit value 0 '' @ [NL]),
    Waitpid (- 1) WNOHANG,
    Write '': '', Write (''exit value 0 '' @ [NL]), Waitpid (- 1) WNOHANG]"
  by (simp add: session_eval)



section \<open>Signal dispositions of the shell\<close>

text \<open>
  The shell never changes its own dispositions after \<open>custom_SIG\<close> and
  \<open>custom_SIGTSTP\<close>: in every state in which the loop of \<open>small_shell\<close> goes on or
  ends, SIGINT is ignored and SIGTSTP has the handler. These are the dispositions
  every child starts with.
\<close>

lemma child_never_returns: "other_cmd_child e p args st \<noteq> Return st'"
  by (simp add: child_unfold and_then_Return)

lemma sys_waitpid_keeps_signals:
  "sys_waitpid e pid opts st = Return (r, st') \<Longrightarrow> sigint st' = sigint st \<and> sigtstp st' = sigtstp st"
  by (auto simp: sys_waitpid_def Let_def split: wait_result.splits)

lemma other_cmd_keeps_signals:
  assumes "other_cmd e args st = Return st'"
  shows "sigint st' = sigint st \<and> sigtstp st' = sigtstp st"
proof (cases "fork e")
  case Fork_failed
  with assms show ?thesis by (simp add: other_cmd_def)
next
  case (Fork_child p)
  with assms child_never_returns show ?thesis by (simp add: other_cmd_def)
next
  case (Fork_parent p)
  let ?st = "after_fork e (st\<lparr>children := children st @ [(p, Running (child_fate e))]\<rparr>)"
  from assms Fork_parent have "other_cmd_parent e p st = Return st'" by (simp add: other_cmd_def)
  then obtain opts r st1 where w: "sys_waitpid e p opts ?st = Return (r, st1)"
    and k: "sigint st' = sigint st1" "sigtstp st' = sigtstp st1"
    by (auto simp: other_cmd_parent_def Let_def my_status_def print_def and_then_Return
        split: if_splits)
  from sys_waitpid_keeps_signals [OF w] k show ?thesis by (simp add: after_fork_frame)
qed

lemma execute_cmd_keeps_signals:
  assumes "execute_cmd e args st = Return (r, st')"
  shows "sigint st' = sigint st \<and> sigtstp st' = sigtstp st"
proof -
  from assms obtain a0 as where a: "args = a0 # as" by (cases args) (auto simp: execute_cmd_def)
  from assms [unfolded a execute_cmd_def list.case and_then_Return] obtain x where
    d: "(if a0 = ''exit'' then Return (my_exit st)
         else if a0 = ''cd'' then Return (1, my_cd e (a0 # as) st)
         else if a0 = ''status'' then Return (1, my_status (exit_status (info st)) st)
         else if a0 = [NL] \<or> take 1 a0 = ''#'' then Return (1, st)
         else and_then (other_cmd e (a0 # as) st) (\<lambda>st1. Return (1, st1))) = Return x"
    and s: "reap_sweep e (snd x) = Return st'"
    by auto
  from reap_sweep_returns [of e "snd x"] s
  have k: "sigint st' = sigint (snd x)" "sigtstp st' = sigtstp (snd x)" by auto
  have "sigint (snd x) = sigint st \<and> sigtstp (snd x) = sigtstp st"
    using d other_cmd_keeps_signals [of e "a0 # as" st]
    by (auto simp: my_exit_def my_cd_def my_status_def print_def and_then_Return split: if_splits)
  with k show ?thesis by simp
qed

lemma shell_cycle_keeps_signals:
  assumes "shell_cycle e buf st = Return (r, st')"
  shows "sigint st' = sigint st \<and> sigtstp st' = sigtstp st"
  using assms execute_cmd_keeps_signals
  by (fastforce simp: shell_cycle_def Let_def print_def split: sum.splits prod.splits)

lemma shell_loop_keeps_signals:
  "shell_loop session st = Return st' \<Longrightarrow> sigint st' = sigint st \<and> sigtstp st' = sigtstp st"
proof (induction session arbitrary: st)
  case Nil
  then show ?case by simp
next
  case (Cons c cs)
  from Cons.prems obtain x where
    c: "shell_cycle (fst c) (snd c) st = Return x" and
    l: "(if fst x \<noteq> 0 then shell_loop cs (snd x) else Return (snd x)) = Return st'"
    by (auto simp: and_then_Return)
  from c have c': "shell_cycle (fst c) (snd c) st = Return (fst x, snd x)" by simp
  from shell_cycle_keeps_signals [OF c'] l Cons.IH [of "snd x"] show ?case
    by (auto split: if_splits)
qed

lemma small_shell_ignores_signals:
  "small_shell garbage inherited session = Return st' \<Longrightarrow>
     sigint st' = SIG_IGN \<and> sigtstp st' = Handle_SIG"
  by (auto simp: small_shell_def custom_SIG_def custom_SIGTSTP_def print_def
      dest!: shell_loop_keeps_signals)

end
